theory Spec2Isabelle
  imports Complex_Main
begin

section \<open>JavaScript numbers\<close>

text \<open>
  The components compute with \<^verbatim>\<open>parseFloat\<close>, \<^verbatim>\<open>Number\<close>, \<^verbatim>\<open>/\<close>, \<^verbatim>\<open>-\<close>, the comparisons,
  \<^verbatim>\<open>toFixed\<close> and \<^verbatim>\<open>toString\<close>. A JavaScript number is an IEEE 754 binary64 value:
  \<open>NaN\<close>, an infinity with its sign, or a finite value \<open>Finite s m e\<close> that stands for
  \<open>m * 2\<^sup>e\<close>, negated when \<open>s\<close> holds, with \<open>m < 2\<^sup>5\<^sup>3\<close>, \<open>-1074 \<le> e \<le> 971\<close>, and
  \<open>2\<^sup>5\<^sup>2 \<le> m\<close> unless \<open>e = -1074\<close> (the zeros and the subnormal numbers). Every operation
  below computes the exact result over the integers and rounds it once, to nearest, ties
  to even, as the language standard prescribes. Strings are lists of code units below 256.
\<close>

datatype number = NaN | Infinity bool | Finite bool nat int

definition zero :: number where
  "zero = Finite False 0 (- 1074)"

fun bit_length :: "nat \<Rightarrow> nat" where
  "bit_length n = (if n = 0 then 0 else Suc (bit_length (n div 2)))"

declare bit_length.simps [simp del]

definition round_half_even :: "nat \<Rightarrow> nat \<Rightarrow> nat" where
  "round_half_even n d =
     (if 2 * (n mod d) < d then n div d
      else if d < 2 * (n mod d) then n div d + 1
      else if even (n div d) then n div d
      else n div d + 1)"

text \<open>
  \<open>round_double s n d\<close> is the number nearest to \<open>n / d\<close> (for \<open>d > 0\<close>), with the sign \<open>s\<close>.
  \<open>floor_log2 n d\<close> is the binary logarithm of \<open>n / d\<close> rounded down: the difference \<open>t\<close>
  of the bit lengths, or one less. The exponent \<open>e\<close> of the last mantissa bit is 52 below
  it, but not below the subnormal exponent; \<open>mantissa n d e\<close> is \<open>n / (d * 2\<^sup>e)\<close> rounded;
  \<open>pack\<close> renormalises a mantissa that was rounded up to \<open>2\<^sup>5\<^sup>3\<close> and overflows to the
  infinity.
\<close>

definition log2_adjust :: "nat \<Rightarrow> nat \<Rightarrow> int \<Rightarrow> int" where
  "log2_adjust n d t =
     (if (if 0 \<le> t then d * 2 ^ nat t \<le> n else d \<le> n * 2 ^ nat (- t)) then t else t - 1)"

definition floor_log2 :: "nat \<Rightarrow> nat \<Rightarrow> int" where
  "floor_log2 n d = log2_adjust n d (int (bit_length n) - int (bit_length d))"

definition mantissa :: "nat \<Rightarrow> nat \<Rightarrow> int \<Rightarrow> nat" where
  "mantissa n d e =
     (if e < 0 then round_half_even (n * 2 ^ nat (- e)) d else round_half_even n (d * 2 ^ nat e))"

definition pack :: "bool \<Rightarrow> nat \<Rightarrow> int \<Rightarrow> number" where
  "pack s m e =
     (if m = 2 ^ 53 then (if 971 < e + 1 then Infinity s else Finite s (2 ^ 52) (e + 1))
      else if 971 < e then Infinity s
      else Finite s m e)"

definition round_at :: "bool \<Rightarrow> nat \<Rightarrow> nat \<Rightarrow> int \<Rightarrow> number" where
  "round_at s n d e = pack s (mantissa n d e) e"

definition round_double :: "bool \<Rightarrow> nat \<Rightarrow> nat \<Rightarrow> number" where
  "round_double s n d =
     (if n = 0 then Finite s 0 (- 1074)
      else round_at s n d (max (floor_log2 n d - 52) (- 1074)))"

text \<open>The number for the decimal \<open>n * 10\<^sup>p\<close> with the sign \<open>s\<close>.\<close>

definition decimal_to_number :: "bool \<Rightarrow> nat \<Rightarrow> int \<Rightarrow> number" where
  "decimal_to_number s n p =
     (if 0 \<le> p then round_double s (n * 10 ^ nat p) 1 else round_double s n (10 ^ nat (- p)))"

text \<open>\<^verbatim>\<open>Number(b)\<close> for a non-negative \<^verbatim>\<open>bigint\<close>, and the power \<open>10\<^sup>k\<close> as a number.\<close>

definition of_bigint :: "nat \<Rightarrow> number" where
  "of_bigint n = round_double False n 1"

definition pow10 :: "nat \<Rightarrow> number" where
  "pow10 k = of_bigint (10 ^ k)"

subsection \<open>parseFloat\<close>

text \<open>
  \<^verbatim>\<open>parseFloat\<close> skips leading white space, takes the longest prefix that is a decimal
  literal (an optional sign, then \<^verbatim>\<open>Infinity\<close> or digits with an optional fraction and an
  optional exponent) and returns \<open>NaN\<close> when there is none.
\<close>

definition is_digit :: "char \<Rightarrow> bool" where
  "is_digit c = (48 \<le> (of_char c :: nat) \<and> (of_char c :: nat) \<le> 57)"

definition nat_of_digits :: "string \<Rightarrow> nat" where
  "nat_of_digits ds = foldl (\<lambda>acc c. 10 * acc + (of_char c - 48)) 0 ds"

definition is_white :: "char \<Rightarrow> bool" where
  "is_white c = (of_char c \<in> {9, 10, 11, 12, 13, 32, 160 :: nat})"

definition split_sign :: "string \<Rightarrow> bool \<times> string" where
  "split_sign s =
     (case s of
        [] \<Rightarrow> (False, [])
      | c # r \<Rightarrow>
          if c = CHR ''-'' then (True, r) else if c = CHR ''+'' then (False, r) else (False, s))"

definition signed_digits :: "bool \<Rightarrow> string \<Rightarrow> int" where
  "signed_digits eneg ds =
     (if ds = [] then 0 else if eneg then - int (nat_of_digits ds) else int (nat_of_digits ds))"

definition exponent_part :: "string \<Rightarrow> int" where
  "exponent_part s =
     (case s of
        [] \<Rightarrow> 0
      | c # r \<Rightarrow>
          if c = CHR ''e'' \<or> c = CHR ''E'' then
            (case split_sign r of (eneg, r') \<Rightarrow> signed_digits eneg (takeWhile is_digit r'))
          else 0)"

definition literal_number :: "bool \<Rightarrow> string \<Rightarrow> string \<Rightarrow> string \<Rightarrow> number" where
  "literal_number neg ip fp r =
     (if ip = [] \<and> fp = [] then NaN
      else decimal_to_number neg (nat_of_digits (ip @ fp)) (exponent_part r - int (length fp)))"

definition after_integer :: "bool \<Rightarrow> string \<Rightarrow> string \<Rightarrow> number" where
  "after_integer neg ip r1 =
     (case r1 of
        [] \<Rightarrow> literal_number neg ip [] []
      | c # r \<Rightarrow>
          if c = CHR ''.'' then literal_number neg ip (takeWhile is_digit r) (dropWhile is_digit r)
          else literal_number neg ip [] r1)"

definition unsigned_literal :: "bool \<Rightarrow> string \<Rightarrow> number" where
  "unsigned_literal neg body =
     (if take 8 body = ''Infinity'' then Infinity neg
      else after_integer neg (takeWhile is_digit body) (dropWhile is_digit body))"

definition parseFloat :: "string \<Rightarrow> number" where
  "parseFloat inputString =
     (case split_sign (dropWhile is_white inputString) of
        (neg, body) \<Rightarrow> unsigned_literal neg body)"

subsection \<open>Comparison and arithmetic\<close>

definition isNaN :: "number \<Rightarrow> bool" where
  "isNaN x = (x = NaN)"

definition signed :: "bool \<Rightarrow> nat \<Rightarrow> int" where
  "signed s m = (if s then - int m else int m)"

text \<open>\<^verbatim>\<open>x < y\<close>: false when an operand is \<open>NaN\<close>; the two zeros are equal.\<close>

fun num_lt :: "number \<Rightarrow> number \<Rightarrow> bool" where
  "num_lt NaN y = False"
| "num_lt x NaN = False"
| "num_lt (Infinity s1) (Infinity s2) = (s1 \<and> \<not> s2)"
| "num_lt (Infinity s1) (Finite s2 m2 e2) = s1"
| "num_lt (Finite s1 m1 e1) (Infinity s2) = (\<not> s2)"
| "num_lt (Finite s1 m1 e1) (Finite s2 m2 e2) =
     (signed s1 m1 * 2 ^ nat (e1 - min e1 e2) < signed s2 m2 * 2 ^ nat (e2 - min e1 e2))"

text \<open>\<^verbatim>\<open>x > y\<close> and \<^verbatim>\<open>x <= y\<close>.\<close>

definition num_gt :: "number \<Rightarrow> number \<Rightarrow> bool" where
  "num_gt x y = num_lt y x"

definition num_le :: "number \<Rightarrow> number \<Rightarrow> bool" where
  "num_le x y = (\<not> isNaN x \<and> \<not> isNaN y \<and> \<not> num_lt y x)"

text \<open>\<^verbatim>\<open>x === y\<close> on numbers.\<close>

fun strict_eq :: "number \<Rightarrow> number \<Rightarrow> bool" where
  "strict_eq NaN y = False"
| "strict_eq x NaN = False"
| "strict_eq (Infinity s1) (Infinity s2) = (s1 = s2)"
| "strict_eq (Infinity s1) (Finite s2 m2 e2) = False"
| "strict_eq (Finite s1 m1 e1) (Infinity s2) = False"
| "strict_eq (Finite s1 m1 e1) (Finite s2 m2 e2) =
     (signed s1 m1 * 2 ^ nat (e1 - min e1 e2) = signed s2 m2 * 2 ^ nat (e2 - min e1 e2))"

text \<open>\<^verbatim>\<open>x / y\<close>.\<close>

fun num_div :: "number \<Rightarrow> number \<Rightarrow> number" where
  "num_div NaN y = NaN"
| "num_div x NaN = NaN"
| "num_div (Infinity s1) (Infinity s2) = NaN"
| "num_div (Infinity s1) (Finite s2 m2 e2) = Infinity (s1 \<noteq> s2)"
| "num_div (Finite s1 m1 e1) (Infinity s2) = Finite (s1 \<noteq> s2) 0 (- 1074)"
| "num_div (Finite s1 m1 e1) (Finite s2 m2 e2) =
     (if m2 = 0 then (if m1 = 0 then NaN else Infinity (s1 \<noteq> s2))
      else round_double (s1 \<noteq> s2) (m1 * 2 ^ nat (e1 - e2)) (m2 * 2 ^ nat (e2 - e1)))"

text \<open>\<^verbatim>\<open>x - y\<close>.\<close>

fun num_sub :: "number \<Rightarrow> number \<Rightarrow> number" where
  "num_sub NaN y = NaN"
| "num_sub x NaN = NaN"
| "num_sub (Infinity s1) (Infinity s2) = (if s1 = s2 then NaN else Infinity s1)"
| "num_sub (Infinity s1) (Finite s2 m2 e2) = Infinity s1"
| "num_sub (Finite s1 m1 e1) (Infinity s2) = Infinity (\<not> s2)"
| "num_sub (Finite s1 m1 e1) (Finite s2 m2 e2) =
     (let k = min e1 e2;
          z = signed s1 m1 * 2 ^ nat (e1 - k) - signed s2 m2 * 2 ^ nat (e2 - k)
      in if z = 0 then Finite (s1 \<and> \<not> s2) 0 (- 1074)
         else round_double (z < 0) (nat \<bar>z\<bar> * 2 ^ nat k) (2 ^ nat (- k)))"

text \<open>The truth value of a number: \<open>NaN\<close> and the zeros are falsy.\<close>

fun truthy :: "number \<Rightarrow> bool" where
  "truthy NaN = False"
| "truthy (Infinity s) = True"
| "truthy (Finite s m e) = (m \<noteq> 0)"

subsection \<open>toString and toFixed\<close>

definition digit_char :: "nat \<Rightarrow> char" where
  "digit_char n = ''0123456789'' ! n"

fun digits_of :: "nat \<Rightarrow> string" where
  "digits_of n =
     (if n < 10 then [digit_char n]
      else digits_of (n div 10) @ [digit_char (n mod 10)])"

declare digits_of.simps [simp del]

text \<open>
  \<^verbatim>\<open>Number.prototype.toString\<close> prints the shortest decimal that reads back as the same
  number and, of the decimals of that length that do, the one nearest to the number. For
  a positive \<open>m * 2\<^sup>e\<close>, \<open>decimal_exponent\<close> is the \<open>n\<close> with \<open>10\<^sup>n\<^sup>-\<^sup>1 \<le> m * 2\<^sup>e < 10\<^sup>n\<close>;
  \<open>candidate\<close> is the \<open>k\<close>-digit decimal nearest to the value (the even one of two) and
  \<open>candidates\<close> adds its neighbour on the other side of the value: if any decimal of \<open>k\<close>
  digits reads back, one of these two does. \<open>shortest_decimal\<close> takes the first \<open>k\<close> that
  has such a decimal; with 17 digits the nearest decimal always reads back.
\<close>

definition decimal_exponent :: "nat \<Rightarrow> int \<Rightarrow> int" where
  "decimal_exponent m e =
     (let num = m * 2 ^ nat e; den = 2 ^ nat (- e)
      in if den \<le> num then int (length (digits_of (num div den)))
         else 1 - int (length (takeWhile (\<lambda>j. num * 10 ^ j < den) [0..<400])))"

definition candidate :: "nat \<Rightarrow> int \<Rightarrow> int \<Rightarrow> nat \<Rightarrow> nat" where
  "candidate m e n k =
     (let num = m * 2 ^ nat e * 10 ^ nat (int k - n);
          den = 2 ^ nat (- e) * 10 ^ nat (n - int k)
      in round_half_even num den)"

definition candidates :: "nat \<Rightarrow> int \<Rightarrow> int \<Rightarrow> nat \<Rightarrow> nat list" where
  "candidates m e n k =
     (let num = m * 2 ^ nat e * 10 ^ nat (int k - n);
          den = 2 ^ nat (- e) * 10 ^ nat (n - int k);
          c = candidate m e n k
      in [c, if c * den \<le> num then c + 1 else c - 1])"

definition reads_back :: "nat \<Rightarrow> int \<Rightarrow> int \<Rightarrow> nat \<Rightarrow> nat \<Rightarrow> bool" where
  "reads_back m e n k c = (decimal_to_number False c (n - int k) = Finite False m e)"

fun first_decimal :: "nat \<Rightarrow> int \<Rightarrow> int \<Rightarrow> nat list \<Rightarrow> nat \<times> nat" where
  "first_decimal m e n [] = (17, candidate m e n 17)"
| "first_decimal m e n (k # ks) =
     (case List.find (reads_back m e n k) (candidates m e n k) of
        Some c \<Rightarrow> (k, c)
      | None \<Rightarrow> first_decimal m e n ks)"

definition shortest_decimal :: "nat \<Rightarrow> int \<Rightarrow> nat \<times> int" where
  "shortest_decimal m e =
     (let n = decimal_exponent m e
      in case first_decimal m e n [1..<17] of
           (k, c) \<Rightarrow> if c = 10 ^ k then (10 ^ (k - 1), n + 1) else (c, n))"

definition format_decimal :: "nat \<Rightarrow> int \<Rightarrow> string" where
  "format_decimal c n =
     (let ds = digits_of c; k = int (length ds)
      in if k \<le> n \<and> n \<le> 21 then ds @ replicate (nat (n - k)) CHR ''0''
         else if 0 < n \<and> n \<le> 21 then take (nat n) ds @ [CHR ''.''] @ drop (nat n) ds
         else if - 6 < n \<and> n \<le> 0 then [CHR ''0'', CHR ''.''] @ replicate (nat (- n)) CHR ''0'' @ ds
         else (if k = 1 then ds else take 1 ds @ [CHR ''.''] @ drop 1 ds)
              @ [CHR ''e'', if 0 \<le> n - 1 then CHR ''+'' else CHR ''-'']
              @ digits_of (nat \<bar>n - 1\<bar>))"

fun number_toString :: "number \<Rightarrow> string" where
  "number_toString NaN = ''NaN''"
| "number_toString (Infinity s) = (if s then ''-Infinity'' else ''Infinity'')"
| "number_toString (Finite s m e) =
     (if m = 0 then ''0''
      else (if s then [CHR ''-''] else [])
           @ (case shortest_decimal m e of (c, n) \<Rightarrow> format_decimal c n))"

text \<open>
  \<^verbatim>\<open>x.toFixed(f)\<close> for \<open>0 \<le> f \<le> 100\<close>: the integer \<open>n\<close> nearest to \<open>x * 10\<^sup>f\<close> (the larger of
  two nearest ones), printed with \<open>f\<close> digits after the point; \<^verbatim>\<open>toString\<close> for a value
  that is not finite or is at least \<open>10\<^sup>2\<^sup>1\<close>.
\<close>

definition scaled_integer :: "nat \<Rightarrow> int \<Rightarrow> nat \<Rightarrow> nat" where
  "scaled_integer m e f =
     (if 0 \<le> e then m * 2 ^ nat e * 10 ^ f
      else (2 * m * 10 ^ f + 2 ^ nat (- e)) div 2 ^ (nat (- e) + 1))"

definition pad_zeros :: "string \<Rightarrow> nat \<Rightarrow> string" where
  "pad_zeros ds f = (if length ds \<le> f then replicate (f + 1 - length ds) CHR ''0'' @ ds else ds)"

definition place_point :: "string \<Rightarrow> nat \<Rightarrow> string" where
  "place_point ds f = take (length ds - f) ds @ [CHR ''.''] @ drop (length ds - f) ds"

definition fixed_digits :: "nat \<Rightarrow> int \<Rightarrow> nat \<Rightarrow> string" where
  "fixed_digits m e f =
     (if f = 0 then digits_of (scaled_integer m e f)
      else place_point (pad_zeros (digits_of (scaled_integer m e f)) f) f)"

fun toFixed :: "number \<Rightarrow> nat \<Rightarrow> string" where
  "toFixed NaN f = ''NaN''"
| "toFixed (Infinity s) f = (if s then ''-Infinity'' else ''Infinity'')"
| "toFixed (Finite s m e) f =
     (if s \<and> m \<noteq> 0 then [CHR ''-''] else [])
     @ (if 10 ^ 21 * 2 ^ nat (- e) \<le> m * 2 ^ nat e then number_toString (Finite False m e)
        else fixed_digits m e f)"

section \<open>Asset registry of the deposit tables\<close>

text \<open>
  Both versions of \<^verbatim>\<open>DepositTable\<close> (the one under \<^verbatim>\<open>cdp/components/tables\<close> and the
  translated one with \<^verbatim>\<open>useTranslation\<close>) declare a constant \<^verbatim>\<open>assets\<close>: an object keyed by the
  chain id whose values are arrays of asset descriptors. A descriptor is a record of five
  strings; the object is a finite map from chain ids to lists.
\<close>

record asset =
  name :: string
  maxLTV :: string
  liquidationThreshold :: string
  houseOfReserveContract :: string
  assetContract :: string

definition mk_asset :: "string \<Rightarrow> string \<Rightarrow> string \<Rightarrow> string \<Rightarrow> string \<Rightarrow> asset" where
  "mk_asset n m l h a =
     \<lparr>name = n, maxLTV = m, liquidationThreshold = l,
      houseOfReserveContract = h, assetContract = a\<rparr>"

text \<open>The registry of \<^verbatim>\<open>cdp/components/tables/DepositTable.tsx\<close> (lines 11 to 89).\<close>

definition assets :: "nat \<rightharpoonup> asset list" where
  "assets = [
     56 \<mapsto> [
       mk_asset ''WETH'' ''85%'' ''85%''
         ''0xd411BE9A105Ea7701FabBe58C2834b7033EBC203'' ''0x2170ed0880ac9a755fd29b2688956bd959f933f8'',
       mk_asset ''WBNB'' ''70%'' ''85%''
         ''0x070ccE6887E70b75015F948b12601D1E759D2024'' ''0xbb4cdb9cbd36b01bd1cbaebf2de08d9173bc095c''],
     137 \<mapsto> [
       mk_asset ''WETH'' ''85%'' ''85%''
         ''0xd411BE9A105Ea7701FabBe58C2834b7033EBC203'' ''0x7ceb23fd6bc0add59e62ac25578270cff1b9f619'',
       mk_asset ''wstETH'' ''70%'' ''85%''
         ''0x28C7DF27e5bC7Cb004c8D4bb2C2D91f246D0A2C9'' ''0x03b54a6e9a984069379fae1a4fc4dbae93b3bccd'',
       mk_asset ''MATICX'' ''60%'' ''85%''
         ''0x102dda5f4621a08dafD327f29f9c815f851846dC'' ''0xfa68fb4628dff1028cfec22b4162fccd0d45efb6'',
       mk_asset ''WMATIC'' ''70%'' ''85%''
         ''0xdB9Dd25660240415d95144C6CE4f21f00Edf8168'' ''0x0d500B1d8E8eF31E21C99d1Db9A6444d3ADf1270'',
       mk_asset ''WBTC'' ''70%'' ''85%''
         ''0x983A0eC44bf1BB11592a8bD5F91f05adE4F44D81'' ''0x1bfd67037b42cf73acf2047067bd4f2c47d9bfd6''],
     8453 \<mapsto> [
       mk_asset ''WETH'' ''80%'' ''85%''
         ''0xfF69E183A863151B4152055974aa648b3165014D'' ''0x4200000000000000000000000000000000000006'',
       mk_asset ''cbETH'' ''80%'' ''85%''
         ''0x5c4a154690AE52844F151bcF3aA44885db3c8A58'' ''0x2Ae3F1Ec7F1F5012CFEab0185bfc7aa3cf0DEc22'']]"

text \<open>The registry of the translated \<^verbatim>\<open>DepositTable\<close> (lines 12 to 76 of that file).\<close>

definition assets_i18n :: "nat \<rightharpoonup> asset list" where
  "assets_i18n = [
     56 \<mapsto> [
       mk_asset ''WETH'' ''85%'' ''85%''
         ''0xd411BE9A105Ea7701FabBe58C2834b7033EBC203'' ''0x2170ed0880ac9a755fd29b2688956bd959f933f8'',
       mk_asset ''WBNB'' ''70%'' ''85%''
         ''0x070ccE6887E70b75015F948b12601D1E759D2024'' ''0xbb4cdb9cbd36b01bd1cbaebf2de08d9173bc095c''],
     137 \<mapsto> [
       mk_asset ''WETH'' ''85%'' ''85%''
         ''0x2718644E0C38A6a1F82136FC31dcA00DFCdF92a3'' ''0x7ceb23fd6bc0add59e62ac25578270cff1b9f619'',
       mk_asset ''MATICX'' ''60%'' ''85%''
         ''0x76CAc0bC384a49485627D2235fE132e3038b45BB'' ''0xfa68fb4628dff1028cfec22b4162fccd0d45efb6'',
       mk_asset ''WMATIC'' ''70%'' ''85%''
         ''0xF56293025437Db5C0024a37dfcEc792125d56A48'' ''0x0d500B1d8E8eF31E21C99d1Db9A6444d3ADf1270''],
     8453 \<mapsto> [
       mk_asset ''WETH'' ''80%'' ''85%''
         ''0xfF69E183A863151B4152055974aa648b3165014D'' ''0x4200000000000000000000000000000000000006'',
       mk_asset ''cbETH'' ''80%'' ''85%''
         ''0x5c4a154690AE52844F151bcF3aA44885db3c8A58'' ''0x2Ae3F1Ec7F1F5012CFEab0185bfc7aa3cf0DEc22'']]"

text \<open>
  \<^verbatim>\<open>const chainAssets = assets[chainId] || [];\<close> An array, even an empty one, is truthy, so
  the right operand is taken exactly when the chain id is not a key of the object.
\<close>

definition chainAssets :: "(nat \<rightharpoonup> asset list) \<Rightarrow> nat \<Rightarrow> asset list" where
  "chainAssets reg chainId = (case reg chainId of None \<Rightarrow> [] | Some l \<Rightarrow> l)"

text \<open>
  A table row as the \<^verbatim>\<open>map\<close> callback builds it: the React key, the name cell, the token
  address handed to \<^verbatim>\<open>BalanceOf\<close>, the two percentage cells, and the arguments that the
  Deposit and the Withdraw button pass to \<^verbatim>\<open>handleOpenModal\<close> and
  \<^verbatim>\<open>handleOpenWithdrawModal\<close>.
\<close>

record table_row =
  row_key :: string
  cell_name :: string
  cell_balance_of :: string
  cell_maxLTV :: string
  cell_liquidationThreshold :: string
  deposit_button :: "string \<times> string \<times> string"
  withdraw_button :: "string \<times> string \<times> string"

definition asset_row :: "asset \<Rightarrow> table_row" where
  "asset_row a =
     \<lparr>row_key = name a, cell_name = name a, cell_balance_of = assetContract a,
      cell_maxLTV = maxLTV a, cell_liquidationThreshold = liquidationThreshold a,
      deposit_button = (name a, houseOfReserveContract a, assetContract a),
      withdraw_button = (name a, houseOfReserveContract a, assetContract a)\<rparr>"

definition table_body :: "(nat \<rightharpoonup> asset list) \<Rightarrow> nat \<Rightarrow> table_row list" where
  "table_body reg chainId = map asset_row (chainAssets reg chainId)"

text \<open>
  The percentage columns are strings such as \<^verbatim>\<open>"85%"\<close>. To compare them as numbers they are
  read as a run of decimal digits followed by a percent sign.
\<close>

definition digit_val :: "char \<Rightarrow> nat option" where
  "digit_val c =
     (if is_digit c then Some (of_char c - 48) else None)"

fun digits_val :: "nat \<Rightarrow> string \<Rightarrow> nat option" where
  "digits_val acc [] = Some acc"
| "digits_val acc (c # cs) =
     (case digit_val c of None \<Rightarrow> None | Some d \<Rightarrow> digits_val (10 * acc + d) cs)"

definition percentage :: "string \<Rightarrow> nat option" where
  "percentage s =
     (if s \<noteq> [] \<and> last s = CHR ''%'' \<and> butlast s \<noteq> [] then digits_val 0 (butlast s) else None)"

definition ltv_within_threshold :: "asset \<Rightarrow> bool" where
  "ltv_within_threshold a =
     (case (percentage (maxLTV a), percentage (liquidationThreshold a)) of
        (Some p, Some q) \<Rightarrow> p \<le> q
      | _ \<Rightarrow> False)"

section \<open>The Supply modal\<close>

text \<open>
  \<^verbatim>\<open>SupplyTransactionModal\<close> keeps seven pieces of state (its \<^verbatim>\<open>useState\<close> calls, lines 26 to
  32), receives four props and reads the values of three hooks. The props and the hook
  values are inputs of the component; its state is a record.
\<close>

record reserve_data =
  symbol :: string
  underlyingAsset :: string
  decimals :: nat
  liquidityRate :: nat
  usageAsCollateralEnabled :: bool

record modal_props =
  isOpen :: bool
  reserve :: "reserve_data option"
  balance :: string

text \<open>
  The hook values: the wallet address of \<^verbatim>\<open>useAccountAddress\<close>, the three flags of
  \<^verbatim>\<open>useApproval\<close>, and of \<^verbatim>\<open>useSupply\<close> the error flag, the error (here: its message, when
  there is an error object) and the data (\<open>None\<close> for \<^verbatim>\<open>undefined\<close>).
\<close>

record hook_values =
  walletAddress :: "string option"
  approveError :: bool
  approveSuccess :: bool
  approvePending :: bool
  supplyError :: bool
  error :: "string option"
  supplyData :: "string option"

record modal_state =
  amount :: string
  isValid :: bool
  errorMessage :: string
  data :: "string option"
  isError :: bool
  showSuccessIcon :: bool
  isApproved :: bool

definition initial_state :: modal_state where
  "initial_state =
     \<lparr>amount = [], isValid = False, errorMessage = [], data = None, isError = False,
      showSuccessIcon = False, isApproved = False\<rparr>"

text \<open>
  A value that is a string, \<^verbatim>\<open>undefined\<close> or \<^verbatim>\<open>null\<close> is truthy when it is a string that
  is not empty.
\<close>

definition truthy_string :: "string option \<Rightarrow> bool" where
  "truthy_string x = (case x of Some v \<Rightarrow> v \<noteq> [] | None \<Rightarrow> False)"

text \<open>What the component asks of the outside world.\<close>

datatype call =
    Approve string
  | HandleSupply string int string
  | ClipboardWriteText string
  | OnClose
  | ConsoleError string
  | ConsoleLog string

fun is_approve_call :: "call \<Rightarrow> bool" where
  "is_approve_call (Approve a) = True"
| "is_approve_call c = False"

fun is_supply_call :: "call \<Rightarrow> bool" where
  "is_supply_call (HandleSupply a w u) = True"
| "is_supply_call c = False"

subsection \<open>The handlers\<close>

text \<open>\<^verbatim>\<open>validateAmount\<close> (lines 69 to 84); it reads the \<^verbatim>\<open>balance\<close> prop.\<close>

definition validateAmount :: "string \<Rightarrow> string \<Rightarrow> modal_state \<Rightarrow> modal_state" where
  "validateAmount bal value s =
     (let numValue = parseFloat value
      in if isNaN numValue \<or> num_lt numValue zero then
           s\<lparr>isValid := False, errorMessage := ''Amount must be a positive number.''\<rparr>
         else if num_gt numValue (parseFloat bal) then
           s\<lparr>isValid := False, errorMessage := ''Amount exceeds wallet balance.''\<rparr>
         else if strict_eq numValue zero then
           s\<lparr>isValid := False, errorMessage := ''Amount must be greater than zero.''\<rparr>
         else s\<lparr>isValid := True, errorMessage := []\<rparr>)"

definition handleChange :: "string \<Rightarrow> modal_state \<Rightarrow> modal_state" where
  "handleChange value s = s\<lparr>amount := value\<rparr>"

definition handleMaxClick :: "string \<Rightarrow> modal_state \<Rightarrow> modal_state" where
  "handleMaxClick bal s = s\<lparr>amount := bal\<rparr>"

text \<open>
  The amount that \<^verbatim>\<open>handleApproveClick\<close> (lines 105 to 117) hands to \<^verbatim>\<open>approve\<close>: for fewer
  than 18 decimals, \<^verbatim>\<open>(parseFloat(amount) / Math.pow(10, 18 - decimals)).toFixed(18)\<close>.
\<close>

definition adjustedAmount :: "nat \<Rightarrow> string \<Rightarrow> string" where
  "adjustedAmount dec a =
     (if dec < 18 then toFixed (num_div (parseFloat a) (pow10 (18 - dec))) 18 else a)"

definition handleApproveClick :: "hook_values \<Rightarrow> reserve_data \<Rightarrow> modal_state \<Rightarrow> call list" where
  "handleApproveClick h r s =
     (case walletAddress h of
        Some w \<Rightarrow> if w \<noteq> [] then [Approve (adjustedAmount (decimals r) (amount s))] else []
      | None \<Rightarrow> [])"

text \<open>
  \<^verbatim>\<open>handleSupplyClick\<close> (lines 123 to 135). \<^verbatim>\<open>toWeiConverter\<close> is imported from
  \<^verbatim>\<open>@/utils/toWeiConverter\<close>; it is a parameter here, with \<open>None\<close> for an exception, which
  the \<^verbatim>\<open>catch\<close> logs.
\<close>

definition handleSupplyClick ::
  "(number \<Rightarrow> nat \<Rightarrow> int option) \<Rightarrow> hook_values \<Rightarrow> reserve_data \<Rightarrow> modal_state \<Rightarrow> call list"
where
  "handleSupplyClick toWeiConverter h r s =
     (case walletAddress h of
        Some w \<Rightarrow>
          if w \<noteq> [] \<and> isApproved s then
            (case toWeiConverter (parseFloat (amount s)) (decimals r) of
               Some amountInWei \<Rightarrow> [HandleSupply (underlyingAsset r) amountInWei w]
             | None \<Rightarrow> [ConsoleError ''Error converting amount to BigInt:''])
          else [ConsoleError ''Approval is required before supply.'']
      | None \<Rightarrow> [ConsoleError ''Approval is required before supply.''])"

text \<open>\<^verbatim>\<open>handleCopyError\<close> (lines 140 to 155) copies the message of the \<^verbatim>\<open>useSupply\<close> error.\<close>

definition handleCopyError :: "hook_values \<Rightarrow> call list" where
  "handleCopyError h =
     (case error h of
        Some m \<Rightarrow> if m = [] then [] else [ClipboardWriteText m]
      | None \<Rightarrow> [])"

text \<open>\<^verbatim>\<open>handleClose\<close> (lines 160 to 168).\<close>

definition handleClose :: "modal_state \<Rightarrow> modal_state \<times> call list" where
  "handleClose s =
     (s\<lparr>amount := [], isValid := False, errorMessage := [], data := None, isError := False,
        isApproved := False\<rparr>,
      [OnClose])"

subsection \<open>The effects\<close>

text \<open>
  The three \<^verbatim>\<open>useEffect\<close> calls (lines 44 to 63). An effect runs after the first render
  and after every render in which one of its dependencies has changed; the effects of one
  render run in the order of their declaration.
\<close>

definition amount_effect :: "modal_props \<Rightarrow> modal_state \<Rightarrow> modal_state" where
  "amount_effect p s = validateAmount (balance p) (amount s) s"

definition approve_effect :: "hook_values \<Rightarrow> modal_state \<Rightarrow> modal_state" where
  "approve_effect h s = (if approveSuccess h then s\<lparr>isApproved := True\<rparr> else s)"

definition supply_effect :: "hook_values \<Rightarrow> modal_state \<Rightarrow> modal_state" where
  "supply_effect h s =
     (let s1 = (if supplyError h then
                  s\<lparr>isError := True,
                    errorMessage :=
                      (case error h of
                         Some m \<Rightarrow> if m = [] then ''An unknown error occurred.'' else m
                       | None \<Rightarrow> ''An unknown error occurred.'')\<rparr>
                else s)
      in if truthy_string (supplyData h) then s1\<lparr>data := supplyData h\<rparr> else s1)"

definition mount :: "modal_props \<Rightarrow> hook_values \<Rightarrow> modal_state" where
  "mount p h = supply_effect h (approve_effect h (amount_effect p initial_state))"

text \<open>
  The effects after a render: \<open>a\<close> and \<open>h\<close> are the amount and the hook values of the
  render before.
\<close>

definition run_effects ::
  "modal_props \<Rightarrow> string \<Rightarrow> hook_values \<Rightarrow> hook_values \<Rightarrow> modal_state \<Rightarrow> modal_state"
where
  "run_effects p a h h' s =
     (let s1 = (if amount s \<noteq> a then amount_effect p s else s);
          s2 = (if approveSuccess h' \<noteq> approveSuccess h then approve_effect h' s1 else s1)
      in if supplyError h' \<noteq> supplyError h \<or> supplyData h' \<noteq> supplyData h \<or> error h' \<noteq> error h
         then supply_effect h' s2 else s2)"

subsection \<open>What is rendered\<close>

text \<open>
  The component renders nothing unless it is open and has a reserve (line 170). Otherwise
  it renders the title and up to three blocks: the form (lines 179 to 238), the
  confirmation (lines 239 to 249) and the error block (lines 250 to 262).
\<close>

definition approve_disabled :: "hook_values \<Rightarrow> modal_state \<Rightarrow> bool" where
  "approve_disabled h s = (\<not> isValid s \<or> approvePending h \<or> isApproved s)"

definition supply_disabled :: "modal_state \<Rightarrow> bool" where
  "supply_disabled s = (\<not> isApproved s \<or> \<not> isValid s)"

record form_block =
  input_value :: string
  wallet_balance :: string
  error_text :: "string option"
  supply_apy :: string
  collateralization :: string
  approve_button_disabled :: bool
  supply_button_disabled :: bool

record error_block =
  message_text :: "string option"
  copied_notice :: bool

record modal_view =
  title :: string
  form :: "form_block option"
  confirmation :: bool
  error_panel :: "error_block option"

definition render :: "modal_props \<Rightarrow> hook_values \<Rightarrow> modal_state \<Rightarrow> modal_view option" where
  "render p h s =
     (case reserve p of
        None \<Rightarrow> None
      | Some r \<Rightarrow>
          if \<not> isOpen p then None
          else Some
            \<lparr>title = ''Supply '' @ symbol r,
             form =
               (if \<not> truthy_string (data s) \<and> \<not> isError s then
                  Some
                    \<lparr>input_value = amount s,
                     wallet_balance = balance p,
                     error_text = (if errorMessage s = [] then None else Some (errorMessage s)),
                     supply_apy =
                       toFixed (num_div (of_bigint (liquidityRate r)) (decimal_to_number False 1 25)) 2
                       @ [CHR ''%''],
                     collateralization =
                       (if usageAsCollateralEnabled r then ''Enabled'' else ''Disabled''),
                     approve_button_disabled = approve_disabled h s,
                     supply_button_disabled = supply_disabled s\<rparr>
                else None),
             confirmation = truthy_string (data s),
             error_panel =
               (if approveError h then
                  Some \<lparr>message_text = error h, copied_notice = showSuccessIcon s\<rparr>
                else None)\<rparr>)"

subsection \<open>Events\<close>

text \<open>
  What can happen to a mounted modal: the user edits the amount or clicks one of the
  controls, the clipboard promise settles, the timer of the copied notice fires, or the
  hooks report new values. A control receives a click only while it is rendered and not
  disabled.
\<close>

datatype event =
    Change string
  | MaxClick
  | ApproveClick
  | SupplyClick
  | CloseClick
  | CopyErrorClick
  | ClipboardResolved
  | ClipboardRejected
  | IconTimeout
  | HooksChanged hook_values

definition form_shown :: "modal_props \<Rightarrow> hook_values \<Rightarrow> modal_state \<Rightarrow> bool" where
  "form_shown p h s = (case render p h s of None \<Rightarrow> False | Some v \<Rightarrow> form v \<noteq> None)"

definition close_shown :: "modal_props \<Rightarrow> hook_values \<Rightarrow> modal_state \<Rightarrow> bool" where
  "close_shown p h s =
     (case render p h s of
        None \<Rightarrow> False
      | Some v \<Rightarrow> form v \<noteq> None \<or> confirmation v \<or> error_panel v \<noteq> None)"

definition error_shown :: "modal_props \<Rightarrow> hook_values \<Rightarrow> modal_state \<Rightarrow> bool" where
  "error_shown p h s = (case render p h s of None \<Rightarrow> False | Some v \<Rightarrow> error_panel v \<noteq> None)"

text \<open>The handler of an event: the new hook values and state, and the calls made.\<close>

definition handle ::
  "(number \<Rightarrow> nat \<Rightarrow> int option) \<Rightarrow> modal_props \<Rightarrow> hook_values \<Rightarrow> modal_state \<Rightarrow> event
     \<Rightarrow> hook_values \<times> modal_state \<times> call list"
where
  "handle toWeiConverter p h s ev =
     (case ev of
        Change v \<Rightarrow> if form_shown p h s then (h, handleChange v s, []) else (h, s, [])
      | MaxClick \<Rightarrow> if form_shown p h s then (h, handleMaxClick (balance p) s, []) else (h, s, [])
      | ApproveClick \<Rightarrow>
          (case reserve p of
             Some r \<Rightarrow>
               if form_shown p h s \<and> \<not> approve_disabled h s
               then (h, s, handleApproveClick h r s) else (h, s, [])
           | None \<Rightarrow> (h, s, []))
      | SupplyClick \<Rightarrow>
          (case reserve p of
             Some r \<Rightarrow>
               if form_shown p h s \<and> \<not> supply_disabled s
               then (h, s, handleSupplyClick toWeiConverter h r s) else (h, s, [])
           | None \<Rightarrow> (h, s, []))
      | CloseClick \<Rightarrow>
          if close_shown p h s then (h, fst (handleClose s), snd (handleClose s)) else (h, s, [])
      | CopyErrorClick \<Rightarrow> if error_shown p h s then (h, s, handleCopyError h) else (h, s, [])
      | ClipboardResolved \<Rightarrow>
          (h, s\<lparr>showSuccessIcon := True\<rparr>, [ConsoleLog ''Error copied to clipboard''])
      | ClipboardRejected \<Rightarrow> (h, s, [ConsoleError ''Failed to copy error to clipboard''])
      | IconTimeout \<Rightarrow> (h, s\<lparr>showSuccessIcon := False\<rparr>, [])
      | HooksChanged h' \<Rightarrow> (h', s, []))"

text \<open>One step: the handler, then the effects of the render that follows.\<close>

definition step ::
  "(number \<Rightarrow> nat \<Rightarrow> int option) \<Rightarrow> modal_props \<Rightarrow> hook_values \<times> modal_state \<Rightarrow> event
     \<Rightarrow> (hook_values \<times> modal_state) \<times> call list"
where
  "step toWeiConverter p c ev =
     (case handle toWeiConverter p (fst c) (snd c) ev of
        (h', s', calls) \<Rightarrow> ((h', run_effects p (amount (snd c)) (fst c) h' s'), calls))"

text \<open>
  A session: the events that reach the mounted component one after the other, each with
  the props of the render that it meets. New props alone start no effect, since no
  dependency array names a prop.
\<close>

fun run ::
  "(number \<Rightarrow> nat \<Rightarrow> int option) \<Rightarrow> hook_values \<times> modal_state \<Rightarrow> (modal_props \<times> event) list
     \<Rightarrow> hook_values \<times> modal_state"
where
  "run toWeiConverter c [] = c"
| "run toWeiConverter c (pe # rest) =
     run toWeiConverter (fst (step toWeiConverter (fst pe) c (snd pe))) rest"

text \<open>The verdict of \<^verbatim>\<open>validateAmount\<close> on an amount, for a balance.\<close>

definition amount_valid :: "string \<Rightarrow> string \<Rightarrow> bool" where
  "amount_valid bal a = isValid (validateAmount bal a initial_state)"

subsection \<open>Exact unit counts\<close>

text \<open>
  The number of units of \<open>10\<^sup>-\<^sup>d\<^sup>e\<^sup>c\<close> that a plain decimal (digits, then optionally a point
  and at most \<open>dec\<close> digits) denotes, exactly; \<open>None\<close> for any other string. For an amount
  as the user types it, this is the number of native units of a token with \<open>dec\<close>
  decimals. The string that \<^verbatim>\<open>handleApproveClick\<close> hands to \<^verbatim>\<open>approve\<close> is, in the words of
  line 113, in a format compatible with \<^verbatim>\<open>parseEther\<close>: it counts units of \<open>10\<^sup>-\<^sup>1\<^sup>8\<close>, which
  are the native units of the token, since the amount was divided by \<open>10\<^sup>1\<^sup>8\<^sup>-\<^sup>d\<^sup>e\<^sup>c\<close> before.
\<close>

definition fraction_units :: "nat \<Rightarrow> string \<Rightarrow> string \<Rightarrow> nat option" where
  "fraction_units dec ip fp =
     (if (ip = [] \<and> fp = []) \<or> dec < length fp \<or> \<not> list_all is_digit fp then None
      else Some (nat_of_digits ip * 10 ^ dec + nat_of_digits fp * 10 ^ (dec - length fp)))"

definition decimal_units :: "nat \<Rightarrow> string \<Rightarrow> nat option" where
  "decimal_units dec a =
     (case dropWhile is_digit a of
        [] \<Rightarrow> fraction_units dec (takeWhile is_digit a) []
      | c # fp \<Rightarrow> if c = CHR ''.'' then fraction_units dec (takeWhile is_digit a) fp else None)"

subsection \<open>Sample inputs\<close>

text \<open>
  A reserve of a token with six decimals, an open modal with the wallet balance
  \<^verbatim>\<open>"10.5"\<close>, hooks at rest with a connected wallet, and a stand-in for the converter.
\<close>

definition usdc :: reserve_data where
  "usdc =
     \<lparr>symbol = ''USDC'', underlyingAsset = ''0x2791Bca1f2de4661ED88A30C99A7a9449Aa84174'',
      decimals = 6, liquidityRate = 0, usageAsCollateralEnabled = True\<rparr>"

definition open_props :: modal_props where
  "open_props = \<lparr>isOpen = True, reserve = Some usdc, balance = ''10.5''\<rparr>"

definition idle_hooks :: hook_values where
  "idle_hooks =
     \<lparr>walletAddress = Some ''0x03397CabEAc33EE8FE3Eb79219Df7161C414dF4B'',
      approveError = False, approveSuccess = False, approvePending = False,
      supplyError = False, error = None, supplyData = None\<rparr>"

definition whole_units :: "number \<Rightarrow> nat \<Rightarrow> int option" where
  "whole_units x dec = Some 0"

section \<open>The deposits table\<close>

text \<open>
  \<^verbatim>\<open>YourDeposits\<close> reads three contract values: the two batches of \<^verbatim>\<open>balanceOfBatch\<close>
  (arrays of \<^verbatim>\<open>bigint\<close>) and the remaining minting power (a \<^verbatim>\<open>bigint\<close>); each is
  \<^verbatim>\<open>undefined\<close>, here \<open>None\<close>, while the read has no data. Lines 138 to 146 format them.
\<close>

definition format_batch :: "nat list option \<Rightarrow> number list" where
  "format_batch batch =
     (case batch of
        Some bs \<Rightarrow> map (\<lambda>b. num_div (of_bigint b) (pow10 18)) bs
      | None \<Rightarrow> [zero, zero, zero, zero, zero])"

definition formattedBalances :: "nat list option \<Rightarrow> number list" where
  "formattedBalances batchDeposits = format_batch batchDeposits"

definition formattedMints :: "nat list option \<Rightarrow> number list" where
  "formattedMints batchMints = format_batch batchMints"

text \<open>A \<^verbatim>\<open>bigint\<close> is truthy unless it is \<^verbatim>\<open>0n\<close>.\<close>

definition formattedMintingPower :: "nat option \<Rightarrow> string" where
  "formattedMintingPower checkRemainingMintingPower =
     (case checkRemainingMintingPower of
        Some x \<Rightarrow> if x = 0 then ''0'' else number_toString (num_div (of_bigint x) (pow10 18))
      | None \<Rightarrow> ''0'')"

record deposit =
  dep_symbol :: string
  dep_amount :: number
  minted :: number
  mintingPower :: number
  houseofReserveContract :: string
  dep_assetContract :: string
  houseOfCoinContract :: string
  assetsAccountantContract :: string
  dep_usageAsCollateralEnabled :: bool

definition mk_deposit ::
  "string \<Rightarrow> number \<Rightarrow> number \<Rightarrow> number \<Rightarrow> string \<Rightarrow> string \<Rightarrow> string \<Rightarrow> string \<Rightarrow> bool \<Rightarrow> deposit"
where
  "mk_deposit sy am mi mp hr ac hc aa uc =
     \<lparr>dep_symbol = sy, dep_amount = am, minted = mi, mintingPower = mp,
      houseofReserveContract = hr, dep_assetContract = ac, houseOfCoinContract = hc,
      assetsAccountantContract = aa, dep_usageAsCollateralEnabled = uc\<rparr>"

datatype render_error = TypeError

text \<open>\<^verbatim>\<open>parseFloat(xs[i].toFixed(6))\<close>; \<^verbatim>\<open>xs[i]\<close> is \<^verbatim>\<open>undefined\<close> beyond the end of the array.\<close>

definition shown6 :: "number list \<Rightarrow> nat \<Rightarrow> number" where
  "shown6 xs i = parseFloat (toFixed (xs ! i) 6)"

text \<open>
  The object \<^verbatim>\<open>deposits\<close> (lines 149 to 267). The literal is evaluated as a whole in every
  render, whatever the chain, and it reads the elements 0 to 4 of both formatted arrays:
  with a shorter array the call of \<^verbatim>\<open>toFixed\<close> on \<^verbatim>\<open>undefined\<close> throws.
\<close>

definition deposits ::
  "nat list option \<Rightarrow> nat list option \<Rightarrow> nat option \<Rightarrow> render_error + (nat \<rightharpoonup> deposit list)"
where
  "deposits batchDeposits batchMints checkRemainingMintingPower =
     (let fb = formattedBalances batchDeposits;
          fm = formattedMints batchMints;
          mp = parseFloat (formattedMintingPower checkRemainingMintingPower)
      in if length fb < 5 \<or> length fm < 5 then Inl TypeError
         else Inr [
           56 \<mapsto> [
             mk_deposit ''WETH'' (shown6 fb 0) (shown6 fm 0) mp
               ''0xd411BE9A105Ea7701FabBe58C2834b7033EBC203''
               ''0x2170ed0880ac9a755fd29b2688956bd959f933f8''
               ''0x518Ad4acAdb3FdE4Ab990a79A0583FA8c4E35FcA''
               ''0xB90996A70C957a1496e349434CF0E030A9f693A4'' True,
             mk_deposit ''WBNB'' (shown6 fb 1) (shown6 fm 1) mp
               ''0x070ccE6887E70b75015F948b12601D1E759D2024''
               ''0xbb4cdb9cbd36b01bd1cbaebf2de08d9173bc095c''
               ''0x518Ad4acAdb3FdE4Ab990a79A0583FA8c4E35FcA''
               ''0xB90996A70C957a1496e349434CF0E030A9f693A4'' False],
           137 \<mapsto> [
             mk_deposit ''WETH'' (shown6 fb 0) (shown6 fm 0) mp
               ''0xd411BE9A105Ea7701FabBe58C2834b7033EBC203''
               ''0x7ceb23fd6bc0add59e62ac25578270cff1b9f619''
               ''0x7ed1acd46de3a4e63f2d3b0f4fb5532e113a520b''
               ''0xB90996A70C957a1496e349434CF0E030A9f693A4'' True,
             mk_deposit ''wstETH'' (shown6 fb 1) (shown6 fm 1) mp
               ''0x28C7DF27e5bC7Cb004c8D4bb2C2D91f246D0A2C9''
               ''0x03b54a6e9a984069379fae1a4fc4dbae93b3bccd''
               ''0x7ed1acd46de3a4e63f2d3b0f4fb5532e113a520b''
               ''0xB90996A70C957a1496e349434CF0E030A9f693A4'' False,
             mk_deposit ''MATICX'' (shown6 fb 2) (shown6 fm 2) mp
               ''0x102dda5f4621a08dafD327f29f9c815f851846dC''
               ''0xfa68fb4628dff1028cfec22b4162fccd0d45efb6''
               ''0x7ed1acd46de3a4e63f2d3b0f4fb5532e113a520b''
               ''0xB90996A70C957a1496e349434CF0E030A9f693A4'' True,
             mk_deposit ''WMATIC'' (shown6 fb 3) (shown6 fm 3) mp
               ''0xdB9Dd25660240415d95144C6CE4f21f00Edf8168''
               ''0x0d500B1d8E8eF31E21C99d1Db9A6444d3ADf1270''
               ''0x7ed1acd46de3a4e63f2d3b0f4fb5532e113a520b''
               ''0xB90996A70C957a1496e349434CF0E030A9f693A4'' False,
             mk_deposit ''WBTC'' (shown6 fb 4) (shown6 fm 4) mp
               ''0x983A0eC44bf1BB11592a8bD5F91f05adE4F44D81''
               ''0x1bfd67037b42cf73acf2047067bd4f2c47d9bfd6''
               ''0x7ed1acd46de3a4e63f2d3b0f4fb5532e113a520b''
               ''0xB90996A70C957a1496e349434CF0E030A9f693A4'' True],
           8453 \<mapsto> [
             mk_deposit ''WETH'' (shown6 fb 0) (shown6 fm 0) mp
               ''0xfF69E183A863151B4152055974aa648b3165014D''
               ''0x4200000000000000000000000000000000000006''
               ''0x02c531Cd9791dD3A31428B2987A82361D72F9b13''
               ''0xB93EcD005B6053c6F8428645aAA879e7028408C7'' True,
             mk_deposit ''cbETH'' (shown6 fb 1) (shown6 fm 1) mp
               ''0x070ccE6887E70b75015F948b12601D1E759D2024''
               ''0x2Ae3F1Ec7F1F5012CFEab0185bfc7aa3cf0DEc22''
               ''0x02c531Cd9791dD3A31428B2987A82361D72F9b13''
               ''0xB93EcD005B6053c6F8428645aAA879e7028408C7'' False]])"

text \<open>\<^verbatim>\<open>const chainDeposits = deposits[chainId] || [];\<close> and line 270.\<close>

definition chainDeposits :: "(nat \<rightharpoonup> deposit list) \<Rightarrow> nat \<Rightarrow> deposit list" where
  "chainDeposits tbl chainId = (case tbl chainId of None \<Rightarrow> [] | Some l \<Rightarrow> l)"

definition allDepositsZero :: "nat list option \<Rightarrow> bool" where
  "allDepositsZero batchDeposits =
     list_all (\<lambda>b. strict_eq b zero) (formattedBalances batchDeposits)"

text \<open>
  What the component returns (lines 277 to 374): the table with one row per deposit of the
  chain, or the paragraph \<^verbatim>\<open>Nothing deposited yet - No open positions found\<close>.
\<close>

datatype deposits_view = DepositsTable "deposit list" | NothingDeposited

definition YourDeposits ::
  "nat \<Rightarrow> nat list option \<Rightarrow> nat list option \<Rightarrow> nat option \<Rightarrow> render_error + deposits_view"
where
  "YourDeposits chainId batchDeposits batchMints checkRemainingMintingPower =
     (case deposits batchDeposits batchMints checkRemainingMintingPower of
        Inl err \<Rightarrow> Inl err
      | Inr tbl \<Rightarrow>
          if chainDeposits tbl chainId \<noteq> [] \<and> \<not> allDepositsZero batchDeposits
          then Inr (DepositsTable (chainDeposits tbl chainId))
          else Inr NothingDeposited)"

section \<open>The header of the lending page\<close>

text \<open>
  The page \<^verbatim>\<open>Lending\<close> shows, in its header (lines 42 to 52), a loading notice, an error
  notice or the profile statistics. \<^verbatim>\<open>useGetUserAccountData\<close> is not among the sources;
  of its result the page reads the two flags and, of the data, \<^verbatim>\<open>ltv\<close> and
  \<^verbatim>\<open>healthFactor\<close>.
\<close>

record user_account_data =
  ltv :: number
  healthFactor :: number

datatype header_view =
    Loading
  | ErrorLoadingData
  | ProfileStats number number number

text \<open>\<^verbatim>\<open>x || 0\<close> on a number that may be \<^verbatim>\<open>undefined\<close>.\<close>

definition or_zero :: "number option \<Rightarrow> number" where
  "or_zero x = (case x of Some v \<Rightarrow> if truthy v then v else zero | None \<Rightarrow> zero)"

definition lending_header ::
  "bool \<Rightarrow> bool \<Rightarrow> user_account_data option \<Rightarrow> number \<Rightarrow> number \<Rightarrow> header_view"
where
  "lending_header isLoading isErr userAccountData suppliesTotalBalance borrowsTotalBalance =
     (let netWorth = num_sub suppliesTotalBalance borrowsTotalBalance
      in if isLoading then Loading
         else if isErr then ErrorLoadingData
         else ProfileStats netWorth
                (or_zero (map_option ltv userAccountData))
                (or_zero (map_option healthFactor userAccountData)))"

section \<open>Evaluating the number operations\<close>

lemmas parse_eval =
  parseFloat_def split_sign_def is_white_def is_digit_def nat_of_digits_def exponent_part_def
  signed_digits_def literal_number_def after_integer_def unsigned_literal_def

lemmas round_eval =
  decimal_to_number_def round_double_def round_at_def pack_def mantissa_def floor_log2_def
  log2_adjust_def round_half_even_def bit_length.simps of_bigint_def pow10_def

lemma replicate_unfold: "replicate n x = (if n = 0 then [] else x # replicate (n - 1) x)"
  by (cases n) simp_all

lemmas fixed_eval =
  fixed_digits_def scaled_integer_def pad_zeros_def place_point_def digits_of.simps
  replicate_unfold digit_char_def

lemma parseFloat_empty: "parseFloat [] = NaN"
  by (simp add: parse_eval)

lemma parseFloat_0: "parseFloat ''0'' = zero"
  by (simp add: parse_eval round_eval zero_def)

lemma parseFloat_5: "parseFloat ''5'' = Finite False 5629499534213120 (- 50)"
  by (simp add: parse_eval round_eval)

lemma parseFloat_10_5: "parseFloat ''10.5'' = Finite False 5910974510923776 (- 49)"
  by (simp add: parse_eval round_eval)

lemma parseFloat_10_6: "parseFloat ''10.6'' = Finite False 5967269506265907 (- 49)"
  by (simp add: parse_eval round_eval)

lemma pow10_12: "pow10 12 = Finite False 8192000000000000 (- 13)"
  by (simp add: round_eval)

lemma pow10_18: "pow10 18 = Finite False 7812500000000000 7"
  by (simp add: round_eval)

text \<open>The sign of a number, read off the comparisons with zero.\<close>

lemma num_lt_zero: "num_lt (Finite s m e) zero = (s \<and> m \<noteq> 0)"
  by (simp add: zero_def signed_def mult_less_0_iff)

lemma zero_num_lt: "num_lt zero (Finite s m e) = (\<not> s \<and> m \<noteq> 0)"
  by (simp add: zero_def signed_def zero_less_mult_iff)

lemma strict_eq_zero: "strict_eq (Finite s m e) zero = (m = 0)"
  by (simp add: zero_def signed_def)

lemma positive_cases:
  "(\<not> isNaN x \<and> \<not> num_lt x zero \<and> \<not> strict_eq x zero) = num_gt x zero"
proof (cases x)
  case NaN
  then show ?thesis by (simp add: isNaN_def num_gt_def zero_def)
next
  case (Infinity s)
  then show ?thesis by (simp add: isNaN_def num_gt_def zero_def)
next
  case (Finite s m e)
  then show ?thesis
    by (auto simp: isNaN_def num_gt_def num_lt_zero zero_num_lt strict_eq_zero)
qed

section \<open>Rounding: error bounds\<close>

text \<open>
  The value of \<open>Finite s m e\<close> is \<open>\<plusminus> m \<sqdot> 2\<^sup>e\<close>. The lemmas of this section relate the
  operations on numbers to the real numbers they round: a result in the normal range is
  within a relative error of \<open>2\<^sup>-\<^sup>5\<^sup>3\<close> of the exact quotient.
\<close>

lemma bit_length_bounds: "0 < n \<Longrightarrow> 2 ^ (bit_length n - 1) \<le> n \<and> n < 2 ^ bit_length n"
proof (induction n rule: bit_length.induct)
  case (1 n)
  show ?case
  proof (cases "n div 2 = 0")
    case True
    with "1.prems" have "n = 1" by presburger
    then show ?thesis by (simp add: bit_length.simps)
  next
    case False
    then have pos: "0 < n div 2" by simp
    have ih: "2 ^ (bit_length (n div 2) - 1) \<le> n div 2 \<and> n div 2 < 2 ^ bit_length (n div 2)"
      using "1.IH" "1.prems" pos by simp
    have bl: "bit_length n = Suc (bit_length (n div 2))"
      using "1.prems" by (subst bit_length.simps) simp
    have b1: "0 < bit_length (n div 2)"
      using pos by (subst bit_length.simps) simp
    then have e: "(2::nat) ^ bit_length (n div 2) = 2 * 2 ^ (bit_length (n div 2) - 1)"
      by (cases "bit_length (n div 2)") simp_all
    from ih have "2 * 2 ^ (bit_length (n div 2) - 1) \<le> n"
      by linarith
    moreover from ih have "n < 2 * 2 ^ bit_length (n div 2)"
      by linarith
    ultimately show ?thesis
      using e by (simp add: bl)
  qed
qed

lemma round_half_even_error:
  assumes "0 < d"
  shows "\<bar>real (round_half_even n d) - real n / real d\<bar> \<le> 1 / 2"
proof -
  have n: "real n = real (n div d) * real d + real (n mod d)"
    by (metis of_nat_add of_nat_mult div_mult_mod_eq)
  have r: "real (n mod d) < real d"
    using assms by simp
  have q: "real n / real d = real (n div d) + real (n mod d) / real d"
    using assms by (subst n) (simp add: field_simps)
  show ?thesis
  proof (cases "2 * (n mod d) < d")
    case True
    then have "2 * real (n mod d) < real d" by linarith
    then have "real (n mod d) / real d \<le> 1 / 2"
      using assms by (simp add: field_simps)
    then show ?thesis
      using True by (simp add: round_half_even_def q)
  next
    case False
    then have "real d \<le> 2 * real (n mod d)" by linarith
    then have h: "1 / 2 \<le> real (n mod d) / real d"
      using assms by (simp add: field_simps)
    have l: "real (n mod d) / real d < 1"
      using assms r by simp
    show ?thesis
    proof (cases "d < 2 * (n mod d)")
      case True
      then show ?thesis
        using False h l by (simp add: round_half_even_def q)
    next
      case eq: False
      with False have "2 * (n mod d) = d" by linarith
      then have "2 * real (n mod d) = real d" by (metis of_nat_mult of_nat_numeral)
      then have "real (n mod d) / real d = 1 / 2"
        using assms by (simp add: field_simps)
      then show ?thesis
        using False eq by (simp add: round_half_even_def q)
    qed
  qed
qed

lemma powi_nat: "0 \<le> t \<Longrightarrow> (2::real) powi t = 2 ^ nat t"
  by (simp add: power_int_def)

lemma powi_neg: "t < 0 \<Longrightarrow> (2::real) powi t = 1 / 2 ^ nat (- t)"
  by (simp add: power_int_def field_simps)

lemma powi_Suc: "(2::real) powi (t + 1) = 2 * 2 powi t"
  by (simp add: power_int_add)

lemma powi_pred: "(2::real) powi (t - 1) = 2 powi t / 2"
  by (simp add: power_int_diff)

lemma powi_diff_nat: "(2::real) powi (int a - int b) = 2 ^ a / 2 ^ b"
  by (simp add: power_int_diff)

lemma log2_adjust_test:
  assumes "0 < n" and "0 < d"
  shows "(if 0 \<le> t then d * 2 ^ nat t \<le> n else d \<le> n * 2 ^ nat (- t))
           \<longleftrightarrow> 2 powi t \<le> real n / real d"
proof (cases "0 \<le> t")
  case True
  have "real (d * 2 ^ nat t) \<le> real n \<longleftrightarrow> d * 2 ^ nat t \<le> n"
    by (rule of_nat_le_iff)
  then have "d * 2 ^ nat t \<le> n \<longleftrightarrow> real d * 2 ^ nat t \<le> real n"
    by simp
  then show ?thesis
    using True assms by (simp add: powi_nat field_simps)
next
  case False
  have "real d \<le> real (n * 2 ^ nat (- t)) \<longleftrightarrow> d \<le> n * 2 ^ nat (- t)"
    by (rule of_nat_le_iff)
  then have "d \<le> n * 2 ^ nat (- t) \<longleftrightarrow> real d \<le> real n * 2 ^ nat (- t)"
    by simp
  then show ?thesis
    using False assms by (simp add: powi_neg field_simps)
qed

lemma floor_log2_bounds:
  assumes "0 < n" and "0 < d"
  shows "2 powi (floor_log2 n d) \<le> real n / real d
         \<and> real n / real d < 2 powi (floor_log2 n d + 1)"
proof -
  define t where "t = int (bit_length n) - int (bit_length d)"
  have bn: "2 ^ (bit_length n - 1) \<le> n" "n < 2 ^ bit_length n"
    using bit_length_bounds [OF assms(1)] by simp_all
  have bd: "2 ^ (bit_length d - 1) \<le> d" "d < 2 ^ bit_length d"
    using bit_length_bounds [OF assms(2)] by simp_all
  have pn: "0 < bit_length n" "0 < bit_length d"
    using assms by (subst bit_length.simps, simp)+
  have rn: "(2::real) ^ (bit_length n - 1) \<le> real n" "real n < 2 ^ bit_length n"
    using bn of_nat_le_iff [where ?'a = real, of "2 ^ (bit_length n - 1)" n]
      of_nat_less_iff [where ?'a = real, of n "2 ^ bit_length n"] by simp_all
  have rd: "(2::real) ^ (bit_length d - 1) \<le> real d" "real d < 2 ^ bit_length d"
    using bd of_nat_le_iff [where ?'a = real, of "2 ^ (bit_length d - 1)" d]
      of_nat_less_iff [where ?'a = real, of d "2 ^ bit_length d"] by simp_all
  have pw_n: "(2::real) ^ bit_length n = 2 powi int (bit_length n)"
    and pw_d: "(2::real) ^ bit_length d = 2 powi int (bit_length d)"
    by simp_all
  have pw_n1: "(2::real) ^ (bit_length n - 1) = 2 powi (int (bit_length n) - 1)"
    using pn by (simp add: powi_nat nat_diff_distrib')
  have pw_d1: "(2::real) ^ (bit_length d - 1) = 2 powi (int (bit_length d) - 1)"
    using pn by (simp add: powi_nat nat_diff_distrib')
  have dpos: "0 < real d" using assms by simp
  have upper: "real n / real d < 2 powi (t + 1)"
  proof -
    have "real n / real d \<le> real n / 2 powi (int (bit_length d) - 1)"
      using rd(1) dpos unfolding pw_d1 by (intro divide_left_mono) simp_all
    also have "\<dots> < 2 powi int (bit_length n) / 2 powi (int (bit_length d) - 1)"
      using rn(2) unfolding pw_n by (intro divide_strict_right_mono) simp_all
    finally have "real n / real d < 2 powi int (bit_length n) / 2 powi (int (bit_length d) - 1)" .
    also have "\<dots> = 2 powi (t + 1)"
      unfolding powi_Suc powi_pred t_def powi_diff_nat by simp
    finally show ?thesis .
  qed
  have lower: "2 powi (t - 1) < real n / real d"
  proof -
    have "2 powi (int (bit_length n) - 1) / 2 powi int (bit_length d) \<le> real n / 2 powi int (bit_length d)"
      using rn(1) unfolding pw_n1 by (intro divide_right_mono) simp_all
    also have "\<dots> < real n / real d"
      using rd(2) dpos assms(1) unfolding pw_d by (intro divide_strict_left_mono) simp_all
    finally have "2 powi (int (bit_length n) - 1) / 2 powi int (bit_length d) < real n / real d" .
    moreover have "2 powi (int (bit_length n) - 1) / 2 powi int (bit_length d) = (2::real) powi (t - 1)"
      unfolding powi_Suc powi_pred t_def powi_diff_nat by simp
    ultimately show ?thesis by simp
  qed
  have "floor_log2 n d = log2_adjust n d t"
    by (simp add: floor_log2_def t_def)
  then have fl: "floor_log2 n d = (if 2 powi t \<le> real n / real d then t else t - 1)"
    by (simp only: log2_adjust_def log2_adjust_test [OF assms])
  show ?thesis
  proof (cases "2 powi t \<le> real n / real d")
    case True
    then show ?thesis using upper fl by simp
  next
    case False
    then show ?thesis using lower fl by simp
  qed
qed

lemma mantissa_error:
  assumes "0 < n" and "0 < d"
  shows "\<bar>real (mantissa n d e) - real n / real d / 2 powi e\<bar> \<le> 1 / 2"
proof (cases "e < 0")
  case True
  have m: "mantissa n d e = round_half_even (n * 2 ^ nat (- e)) d"
    using True by (simp add: mantissa_def)
  have q: "real n / real d / 2 powi e = real (n * 2 ^ nat (- e)) / real d"
    using True by (simp add: powi_neg)
  show ?thesis
    unfolding m q by (rule round_half_even_error) (rule assms(2))
next
  case False
  have m: "mantissa n d e = round_half_even n (d * 2 ^ nat e)"
    using False by (simp add: mantissa_def)
  have q: "real n / real d / 2 powi e = real n / real (d * 2 ^ nat e)"
    using False by (simp add: powi_nat)
  have "0 < d * 2 ^ nat e"
    using assms by simp
  then show ?thesis
    unfolding m q by (rule round_half_even_error)
qed

lemma round_double_normal:
  assumes "0 < n" and "0 < d"
    and "- 1022 \<le> floor_log2 n d" and "floor_log2 n d \<le> 1022"
  shows "\<exists>m e. round_double s n d = Finite s m e \<and> 0 < m
           \<and> \<bar>real m * 2 powi e - real n / real d\<bar> \<le> real n / real d / 2 ^ 53"
proof -
  define l where "l = floor_log2 n d"
  define e where "e = l - 52"
  define q where "q = real n / real d / 2 powi e"
  define m0 where "m0 = mantissa n d e"
  have lb: "2 powi l \<le> real n / real d" and ub: "real n / real d < 2 powi (l + 1)"
    using floor_log2_bounds [OF assms(1,2)] by (simp_all add: l_def)
  have pe: "(0::real) < 2 powi e"
    by simp
  have le: "(2::real) powi l = 2 ^ 52 * 2 powi e"
    by (simp add: e_def power_int_diff)
  have le1: "(2::real) powi (l + 1) = 2 ^ 53 * 2 powi e"
    by (simp add: e_def power_int_diff power_int_add)
  have q_lo: "2 ^ 52 \<le> q"
    using lb pe unfolding q_def le by (simp only: pos_le_divide_eq)
  have q_hi: "q < 2 ^ 53"
    using ub pe unfolding q_def le1 by (simp only: pos_divide_less_eq)
  have err: "\<bar>real m0 - q\<bar> \<le> 1 / 2"
    using mantissa_error [OF assms(1,2), of e] by (simp add: m0_def q_def)
  have m_lo: "2 ^ 52 \<le> m0"
  proof (rule ccontr)
    assume "\<not> 2 ^ 52 \<le> m0"
    then have "m0 \<le> 2 ^ 52 - 1"
      by simp
    then have "real m0 \<le> real (2 ^ 52 - 1)"
      by (rule of_nat_mono)
    then have "real m0 \<le> 2 ^ 52 - 1"
      by simp
    with err q_lo show False
      by linarith
  qed
  have m_hi: "m0 \<le> 2 ^ 53"
  proof (rule ccontr)
    assume "\<not> m0 \<le> 2 ^ 53"
    then have "2 ^ 53 + 1 \<le> m0"
      by simp
    then have "real (2 ^ 53 + 1) \<le> real m0"
      by (rule of_nat_mono)
    then have "2 ^ 53 + 1 \<le> real m0"
      by simp
    with err q_hi show False
      by linarith
  qed
  have mx: "max (floor_log2 n d - 52) (- 1074) = floor_log2 n d - 52"
    using assms(3) by simp
  have rd: "round_double s n d = pack s m0 e"
    using assms(1) by (simp add: round_double_def round_at_def m0_def e_def l_def mx)
  have e_hi: "e + 1 \<le> 971"
    using assms(4) by (simp add: e_def l_def)
  have v: "\<bar>real m0 * 2 powi e - real n / real d\<bar> \<le> real n / real d / 2 ^ 53"
  proof -
    have "real m0 * 2 powi e - real n / real d = (real m0 - q) * 2 powi e"
      using pe by (simp add: q_def field_simps)
    then have "\<bar>real m0 * 2 powi e - real n / real d\<bar> = \<bar>real m0 - q\<bar> * 2 powi e"
      using pe by (simp add: abs_mult)
    also have "\<dots> \<le> 1 / 2 * 2 powi e"
      using err pe by (intro mult_right_mono) simp_all
    also have "\<dots> = 2 powi l / 2 ^ 53"
      unfolding le by simp
    also have "\<dots> \<le> real n / real d / 2 ^ 53"
      using lb by (simp add: divide_right_mono)
    finally show ?thesis .
  qed
  show ?thesis
  proof (cases "m0 = 2 ^ 53")
    case True
    have r: "round_double s n d = Finite s (2 ^ 52) (e + 1)"
      using e_hi by (simp add: rd pack_def True)
    have "real (2 ^ 52 :: nat) * 2 powi (e + 1) = real m0 * 2 powi e"
      by (simp add: True power_int_add)
    with v have b: "\<bar>real (2 ^ 52 :: nat) * 2 powi (e + 1) - real n / real d\<bar>
        \<le> real n / real d / 2 ^ 53"
      by (simp only:)
    have p: "0 < (2 ^ 52 :: nat)"
      by simp
    from r p b show ?thesis
      by blast
  next
    case False
    have r: "round_double s n d = Finite s m0 e"
      using e_hi False by (simp add: rd pack_def)
    have p: "0 < m0"
      using m_lo by simp
    from r p v show ?thesis
      by blast
  qed
qed

lemma floor_log2_ge:
  assumes "0 < n" and "0 < d" and "2 powi a \<le> real n / real d"
  shows "a \<le> floor_log2 n d"
proof (rule ccontr)
  assume "\<not> a \<le> floor_log2 n d"
  then have "floor_log2 n d + 1 \<le> a"
    by simp
  then have "(2::real) powi (floor_log2 n d + 1) \<le> 2 powi a"
    by (intro power_int_increasing) simp_all
  with floor_log2_bounds [OF assms(1,2)] assms(3) show False
    by linarith
qed

lemma floor_log2_less:
  assumes "0 < n" and "0 < d" and "real n / real d < 2 powi b"
  shows "floor_log2 n d < b"
proof (rule ccontr)
  assume "\<not> floor_log2 n d < b"
  then have "b \<le> floor_log2 n d"
    by simp
  then have "(2::real) powi b \<le> 2 powi floor_log2 n d"
    by (intro power_int_increasing) simp_all
  with floor_log2_bounds [OF assms(1,2)] assms(3) show False
    by linarith
qed

lemma round_double_relative:
  assumes "0 < n" and "0 < d"
    and "2 powi (- 1022) \<le> real n / real d" and "real n / real d < 2 powi 1023"
  shows "\<exists>m e. round_double s n d = Finite s m e \<and> 0 < m
           \<and> \<bar>real m * 2 powi e - real n / real d\<bar> \<le> real n / real d / 2 ^ 53"
proof -
  have "- 1022 \<le> floor_log2 n d"
    using floor_log2_ge [OF assms(1,2,3)] .
  moreover have "floor_log2 n d \<le> 1022"
    using floor_log2_less [OF assms(1,2,4)] by simp
  ultimately show ?thesis
    by (rule round_double_normal [OF assms(1,2)])
qed

lemma num_div_positive:
  assumes "0 < m2"
  shows "num_div (Finite False m1 e1) (Finite False m2 e2) =
           round_double False (m1 * 2 ^ nat (e1 - e2)) (m2 * 2 ^ nat (e2 - e1))
         \<and> real (m1 * 2 ^ nat (e1 - e2)) / real (m2 * 2 ^ nat (e2 - e1)) =
             (real m1 * 2 powi e1) / (real m2 * 2 powi e2)"
proof -
  have "(2::real) ^ nat (e1 - e2) / 2 ^ nat (e2 - e1) = 2 powi e1 / 2 powi e2"
  proof (cases "e2 \<le> e1")
    case True
    then have "(2::real) ^ nat (e1 - e2) = 2 powi (e1 - e2)"
      by (simp add: powi_nat)
    then show ?thesis
      using True by (simp add: power_int_diff)
  next
    case False
    then have "(2::real) ^ nat (e2 - e1) = 2 powi (e2 - e1)"
      by (simp add: powi_nat)
    moreover have "(2::real) powi (e2 - e1) = 2 powi e2 / 2 powi e1"
      by (simp add: power_int_diff)
    ultimately show ?thesis
      using False by simp
  qed
  then have h: "(2::real) ^ nat (e1 - e2) / 2 ^ nat (e2 - e1) = 2 powi e1 / 2 powi e2" .
  have "real (m1 * 2 ^ nat (e1 - e2)) / real (m2 * 2 ^ nat (e2 - e1)) =
      (real m1 / real m2) * (2 ^ nat (e1 - e2) / 2 ^ nat (e2 - e1))"
    by simp
  also have "\<dots> = (real m1 / real m2) * (2 powi e1 / 2 powi e2)"
    by (simp only: h)
  also have "\<dots> = (real m1 * 2 powi e1) / (real m2 * 2 powi e2)"
    by simp
  finally show ?thesis
    using assms by simp
qed

lemma foldl_digits:
  fixes f :: "nat \<Rightarrow> char \<Rightarrow> nat"
  assumes "\<And>acc c. f acc c = 10 * acc + f 0 c"
  shows "foldl f a ys = a * 10 ^ length ys + foldl f 0 ys"
proof (induction ys arbitrary: a)
  case Nil
  then show ?case by simp
next
  case (Cons y ys)
  have "foldl f a (y # ys) = foldl f (f a y) ys"
    by simp
  also have "\<dots> = f a y * 10 ^ length ys + foldl f 0 ys"
    by (rule Cons.IH)
  also have "\<dots> = (10 * a + f 0 y) * 10 ^ length ys + foldl f 0 ys"
    using assms [of a y] by simp
  also have "\<dots> = a * 10 ^ length (y # ys) + (f 0 y * 10 ^ length ys + foldl f 0 ys)"
    by (simp add: algebra_simps)
  also have "f 0 y * 10 ^ length ys + foldl f 0 ys = foldl f (f 0 y) ys"
    by (rule Cons.IH [symmetric])
  also have "foldl f (f 0 y) ys = foldl f 0 (y # ys)"
    by simp
  finally show ?case .
qed

lemma nat_of_digits_append:
  "nat_of_digits (xs @ ys) = nat_of_digits xs * 10 ^ length ys + nat_of_digits ys"
  unfolding nat_of_digits_def foldl_append
  by (rule foldl_digits) simp

lemma nat_of_digits_zeros: "nat_of_digits (replicate z CHR ''0'') = 0"
  by (induction z) (simp_all add: nat_of_digits_def)

lemma digit_char_props:
  assumes "n < 10"
  shows "is_digit (digit_char n) \<and> (of_char (digit_char n) :: nat) - 48 = n"
proof -
  from assms have "n \<in> {0, 1, 2, 3, 4, 5, 6, 7, 8, 9}"
    by auto
  then show ?thesis
    by (auto simp: digit_char_def is_digit_def)
qed

lemma digits_of_props:
  "digits_of n \<noteq> [] \<and> list_all is_digit (digits_of n) \<and> nat_of_digits (digits_of n) = n"
proof (induction n rule: digits_of.induct)
  case (1 n)
  show ?case
  proof (cases "n < 10")
    case True
    then show ?thesis
      using digit_char_props [OF True]
      by (subst (1 2 3) digits_of.simps) (simp add: nat_of_digits_def)
  next
    case False
    have m: "n mod 10 < 10" by simp
    have ih: "digits_of (n div 10) \<noteq> [] \<and> list_all is_digit (digits_of (n div 10))
        \<and> nat_of_digits (digits_of (n div 10)) = n div 10"
      using "1.IH" False by simp
    have "nat_of_digits [digit_char (n mod 10)] = n mod 10"
      using digit_char_props [OF m] by (simp add: nat_of_digits_def)
    then show ?thesis
      using False ih digit_char_props [OF m]
      by (subst (1 2 3) digits_of.simps) (simp add: nat_of_digits_append)
  qed
qed

lemma not_digit_point: "\<not> is_digit CHR ''.''"
  by (simp add: is_digit_def)

lemma takeWhile_digits:
  "list_all is_digit xs \<Longrightarrow> takeWhile is_digit (xs @ CHR ''.'' # ys) = xs"
  by (induction xs) (simp_all add: not_digit_point)

lemma dropWhile_digits:
  "list_all is_digit xs \<Longrightarrow> dropWhile is_digit (xs @ CHR ''.'' # ys) = CHR ''.'' # ys"
  by (induction xs) (simp_all add: not_digit_point)

lemma takeWhile_all: "list_all P xs \<Longrightarrow> takeWhile P xs = xs"
  by (induction xs) simp_all

lemma dropWhile_all: "list_all P xs \<Longrightarrow> dropWhile P xs = []"
  by (induction xs) simp_all

lemma list_all_takeWhile: "list_all P (takeWhile P xs)"
  by (induction xs) simp_all

text \<open>The string of \<open>toFixed\<close> with 18 digits denotes the scaled integer.\<close>

lemma fixed_digits_units: "decimal_units 18 (fixed_digits m e 18) = Some (scaled_integer m e 18)"
proof -
  define n where "n = scaled_integer m e 18"
  define ds where "ds = pad_zeros (digits_of n) 18"
  have d: "digits_of n \<noteq> []" "list_all is_digit (digits_of n)" "nat_of_digits (digits_of n) = n"
    using digits_of_props [of n] by simp_all
  have z: "is_digit CHR ''0''"
    by (simp add: is_digit_def)
  have len: "18 < length ds"
    using d(1) by (auto simp: ds_def pad_zeros_def)
  have dig: "list_all is_digit ds"
    using d(2) z by (auto simp: ds_def pad_zeros_def list_all_iff)
  have val: "nat_of_digits ds = n"
    using d(3) by (simp add: ds_def pad_zeros_def nat_of_digits_append nat_of_digits_zeros)
  define ip where "ip = take (length ds - 18) ds"
  define fp where "fp = drop (length ds - 18) ds"
  have split: "ds = ip @ fp"
    by (simp add: ip_def fp_def)
  have lf: "length fp = 18"
    using len by (simp add: fp_def)
  have ipne: "ip \<noteq> []"
    using len by (auto simp: ip_def)
  have di: "list_all is_digit ip" and df: "list_all is_digit fp"
    using dig by (simp_all add: split)
  have fd: "fixed_digits m e 18 = ip @ CHR ''.'' # fp"
    by (simp add: fixed_digits_def place_point_def n_def [symmetric] ds_def [symmetric]
        ip_def fp_def)
  have "decimal_units 18 (ip @ CHR ''.'' # fp) = fraction_units 18 ip fp"
    by (simp add: decimal_units_def takeWhile_digits [OF di] dropWhile_digits [OF di])
  also have "\<dots> = Some (nat_of_digits ip * 10 ^ 18 + nat_of_digits fp)"
    using ipne lf df by (simp add: fraction_units_def)
  also have "nat_of_digits ip * 10 ^ 18 + nat_of_digits fp = n"
    using val by (simp add: split nat_of_digits_append lf)
  finally show ?thesis
    by (simp add: fd n_def)
qed

lemma digit_not_special:
  "is_digit c \<Longrightarrow> \<not> is_white c \<and> c \<noteq> CHR ''-'' \<and> c \<noteq> CHR ''+'' \<and> c \<noteq> CHR ''I''"
  by (auto simp: is_digit_def is_white_def)

lemma point_not_special:
  "\<not> is_white CHR ''.'' \<and> CHR ''.'' \<noteq> CHR ''-'' \<and> CHR ''.'' \<noteq> CHR ''+'' \<and> CHR ''.'' \<noteq> CHR ''I''"
  by (simp add: is_white_def)

lemma parseFloat_plain:
  assumes "\<not> is_white c" and "c \<noteq> CHR ''-''" and "c \<noteq> CHR ''+''" and "c \<noteq> CHR ''I''"
  shows "parseFloat (c # r) =
           after_integer False (takeWhile is_digit (c # r)) (dropWhile is_digit (c # r))"
  using assms by (simp add: parseFloat_def split_sign_def unsigned_literal_def)

lemma parse_plain_decimal:
  assumes "decimal_units dec a = Some N"
  shows "\<exists>D k. k \<le> dec \<and> parseFloat a = decimal_to_number False D (- int k)
           \<and> N = D * 10 ^ (dec - k)"
proof -
  define ip where "ip = takeWhile is_digit a"
  define r1 where "r1 = dropWhile is_digit a"
  have a: "a = ip @ r1"
    by (simp add: ip_def r1_def)
  have di: "list_all is_digit ip"
    by (simp add: ip_def list_all_takeWhile)
  have du: "(case r1 of [] \<Rightarrow> fraction_units dec ip []
      | c # fp \<Rightarrow> if c = CHR ''.'' then fraction_units dec ip fp else None) = Some N"
    using assms unfolding decimal_units_def ip_def r1_def .
  show ?thesis
  proof (cases r1)
    case Nil
    then have f: "fraction_units dec ip [] = Some N"
      using du by simp
    then have ne: "ip \<noteq> []" and n: "N = nat_of_digits ip * 10 ^ dec"
      by (auto simp: fraction_units_def nat_of_digits_def split: if_splits)
    from ne obtain c r where cr: "ip = c # r"
      by (cases ip) auto
    then have dc: "is_digit c"
      using di by simp
    have acr: "a = c # r"
      using a Nil cr by simp
    have "parseFloat a = after_integer False ip r1"
      unfolding ip_def r1_def acr
      by (rule parseFloat_plain) (use digit_not_special [OF dc] in simp_all)
    then have "parseFloat a = decimal_to_number False (nat_of_digits ip) (- int 0)"
      using ne Nil by (simp add: after_integer_def literal_number_def exponent_part_def)
    with n show ?thesis
      by (intro exI [of _ "nat_of_digits ip"] exI [of _ 0]) simp
  next
    case (Cons p fp)
    then have f: "p = CHR ''.''" "fraction_units dec ip fp = Some N"
      using du by (auto split: if_splits)
    then have ne: "\<not> (ip = [] \<and> fp = [])" and k: "length fp \<le> dec"
      and df: "list_all is_digit fp"
      and n: "N = nat_of_digits ip * 10 ^ dec + nat_of_digits fp * 10 ^ (dec - length fp)"
      by (auto simp: fraction_units_def split: if_splits)
    have a': "a = ip @ CHR ''.'' # fp"
      using a Cons f(1) by simp
    obtain c r where cr: "a = c # r" and c: "is_digit c \<or> c = CHR ''.''"
    proof (cases ip)
      case Nil
      then show ?thesis using a' that by simp
    next
      case (Cons c' r')
      then show ?thesis using a' di that by simp
    qed
    have sp: "\<not> is_white c \<and> c \<noteq> CHR ''-'' \<and> c \<noteq> CHR ''+'' \<and> c \<noteq> CHR ''I''"
      using c digit_not_special [of c] point_not_special by auto
    have "parseFloat a = after_integer False ip r1"
      unfolding ip_def r1_def cr
      by (rule parseFloat_plain) (use sp in simp_all)
    then have "parseFloat a = literal_number False ip fp []"
      using df Cons f(1) by (simp add: after_integer_def takeWhile_all dropWhile_all)
    then have pf: "parseFloat a =
        decimal_to_number False (nat_of_digits (ip @ fp)) (- int (length fp))"
      using ne by (simp add: literal_number_def exponent_part_def)
    have "10 ^ dec = (10::nat) ^ length fp * 10 ^ (dec - length fp)"
      using k by (simp add: power_add [symmetric])
    then have "N = nat_of_digits (ip @ fp) * 10 ^ (dec - length fp)"
      by (simp add: n nat_of_digits_append algebra_simps)
    with pf k show ?thesis
      by blast
  qed
qed

lemma pow10_values:
  "pow10 (Suc 0) = Finite False 5629499534213120 (- 49)"
  "pow10 1 = Finite False 5629499534213120 (- 49)"
  "pow10 2 = Finite False 7036874417766400 (- 46)"
  "pow10 3 = Finite False 8796093022208000 (- 43)"
  "pow10 4 = Finite False 5497558138880000 (- 39)"
  "pow10 5 = Finite False 6871947673600000 (- 36)"
  "pow10 6 = Finite False 8589934592000000 (- 33)"
  "pow10 7 = Finite False 5368709120000000 (- 29)"
  "pow10 8 = Finite False 6710886400000000 (- 26)"
  "pow10 9 = Finite False 8388608000000000 (- 23)"
  "pow10 10 = Finite False 5242880000000000 (- 19)"
  "pow10 11 = Finite False 6553600000000000 (- 16)"
  "pow10 12 = Finite False 8192000000000000 (- 13)"
  "pow10 13 = Finite False 5120000000000000 (- 9)"
  "pow10 14 = Finite False 6400000000000000 (- 6)"
  "pow10 15 = Finite False 8000000000000000 (- 3)"
  "pow10 16 = Finite False 5000000000000000 1"
  "pow10 17 = Finite False 6250000000000000 4"
  "pow10 18 = Finite False 7812500000000000 7"
  by (simp_all add: round_eval)

lemma pow10_exact:
  assumes "1 \<le> j" and "j \<le> 18"
  shows "\<exists>m e. pow10 j = Finite False m e \<and> 0 < m \<and> real m * 2 powi e = 10 ^ j"
proof -
  from assms have "j = 1 \<or> j = 2 \<or> j = 3 \<or> j = 4 \<or> j = 5 \<or> j = 6 \<or> j = 7 \<or> j = 8 \<or> j = 9 \<or> j = 10 \<or> j = 11 \<or> j = 12 \<or> j = 13 \<or> j = 14 \<or> j = 15 \<or> j = 16 \<or> j = 17 \<or> j = 18"
    by arith
  then show ?thesis
    by (elim disjE) (simp_all add: pow10_values)
qed

lemma nat_close: "\<bar>real a - real b\<bar> < 1 \<Longrightarrow> a = b"
  by linarith

lemma scaled_integer_nearest:
  assumes "\<bar>real m * 2 powi e * 10 ^ 18 - real N\<bar> < 1 / 2"
  shows "scaled_integer m e 18 = N"
proof (cases "0 \<le> e")
  case True
  have "real (m * 2 ^ nat e * 10 ^ 18) = real m * 2 powi e * 10 ^ 18"
    using True by (simp add: powi_nat)
  with assms have "\<bar>real (m * 2 ^ nat e * 10 ^ 18) - real N\<bar> < 1"
    by linarith
  then have "m * 2 ^ nat e * 10 ^ 18 = N"
    by (rule nat_close)
  then show ?thesis
    using True by (simp add: scaled_integer_def)
next
  case False
  define k where "k = nat (- e)"
  define X where "X = real m * 2 powi e * 10 ^ 18"
  have p: "(2::real) powi e = 1 / 2 ^ k"
    using False by (simp add: powi_neg k_def)
  have x: "X * 2 ^ (k + 1) = 2 * real m * 10 ^ 18"
    by (simp add: X_def p)
  have lo: "real N - 1 / 2 < X" and hi: "X < real N + 1 / 2"
    using assms unfolding X_def by linarith+
  have pos: "(0::real) < 2 ^ (k + 1)"
    by simp
  have "(real N - 1 / 2) * 2 ^ (k + 1) < X * 2 ^ (k + 1)"
    using lo pos by (rule mult_strict_right_mono)
  then have "real N * 2 ^ (k + 1) - 2 ^ k < 2 * real m * 10 ^ 18"
    unfolding x by (simp add: algebra_simps)
  then have "real (2 ^ (k + 1) * N) \<le> real (2 * m * 10 ^ 18 + 2 ^ k)"
    by (simp add: algebra_simps)
  then have a: "2 ^ (k + 1) * N \<le> 2 * m * 10 ^ 18 + 2 ^ k"
    by (simp only: of_nat_le_iff)
  have "X * 2 ^ (k + 1) < (real N + 1 / 2) * 2 ^ (k + 1)"
    using hi pos by (rule mult_strict_right_mono)
  then have "2 * real m * 10 ^ 18 < real N * 2 ^ (k + 1) + 2 ^ k"
    unfolding x by (simp add: algebra_simps)
  then have "real (2 * m * 10 ^ 18 + 2 ^ k) < real (2 ^ (k + 1) * Suc N)"
    by (simp add: algebra_simps)
  then have b: "2 * m * 10 ^ 18 + 2 ^ k < 2 ^ (k + 1) * Suc N"
    by (simp only: of_nat_less_iff)
  have "(2 * m * 10 ^ 18 + 2 ^ k) div 2 ^ (k + 1) = N"
    using a b by (rule div_nat_eqI)
  then show ?thesis
    using False by (simp add: scaled_integer_def k_def)
qed

lemma below_threshold:
  assumes "real m * 2 powi e < 10 ^ 21"
  shows "\<not> 10 ^ 21 * 2 ^ nat (- e) \<le> m * 2 ^ nat e"
proof
  assume "10 ^ 21 * 2 ^ nat (- e) \<le> m * 2 ^ nat e"
  then have "real (10 ^ 21 * 2 ^ nat (- e)) \<le> real (m * 2 ^ nat e)"
    by (rule of_nat_mono)
  then have h: "10 ^ 21 * 2 ^ nat (- e) \<le> real m * 2 ^ nat e"
    by simp
  show False
  proof (cases "0 \<le> e")
    case True
    then show ?thesis
      using h assms by (simp add: powi_nat)
  next
    case False
    then have "(2::real) powi e = 1 / 2 ^ nat (- e)"
      by (simp add: powi_neg)
    with assms have "real m / 2 ^ nat (- e) < 10 ^ 21"
      by simp
    then have "real m < 10 ^ 21 * 2 ^ nat (- e)"
      by (simp add: pos_divide_less_eq)
    moreover have "10 ^ 21 * 2 ^ nat (- e) \<le> real m"
      using h False by simp
    ultimately show ?thesis
      by linarith
  qed
qed

lemma toFixed_units:
  assumes "\<bar>real m * 2 powi e * 10 ^ 18 - real N\<bar> < 1 / 2" and "N < 2 ^ 50"
  shows "decimal_units 18 (toFixed (Finite False m e) 18) = Some N"
proof -
  have "real m * 2 powi e * 10 ^ 18 < real N + 1 / 2"
    using assms(1) by linarith
  moreover have "real N < 2 ^ 50"
    using assms(2) of_nat_less_iff [where ?'a = real, of N "2 ^ 50"] by simp
  ultimately have "real m * 2 powi e * 10 ^ 18 < 10 ^ 21 * 10 ^ 18"
    by simp
  then have "real m * 2 powi e < 10 ^ 21"
    by simp
  then have "toFixed (Finite False m e) 18 = fixed_digits m e 18"
    using below_threshold [of m e] by simp
  then show ?thesis
    using scaled_integer_nearest [OF assms(1)] by (simp add: fixed_digits_units)
qed

lemma decimal_to_number_ratio:
  assumes "0 < D"
  shows "\<exists>n d. decimal_to_number False D (- int k) = round_double False n d \<and> 0 < n \<and> 0 < d
           \<and> real n / real d = real D / 10 ^ k"
proof (cases "k = 0")
  case True
  then have "decimal_to_number False D (- int k) = round_double False D 1"
    by (simp add: decimal_to_number_def)
  moreover have "real D / real 1 = real D / 10 ^ k"
    using True by simp
  ultimately show ?thesis
    using assms by (intro exI [of _ D] exI [of _ 1]) simp
next
  case False
  then have "decimal_to_number False D (- int k) = round_double False D (10 ^ k)"
    by (simp add: decimal_to_number_def)
  moreover have "real D / real (10 ^ k) = real D / 10 ^ k"
    by simp
  moreover have "0 < (10::nat) ^ k"
    by simp
  ultimately show ?thesis
    using assms by blast
qed

lemma tiny: "(2::real) powi (- 1022) \<le> 1 / (2 * 10 ^ 17 * 10 ^ 18)"
  by simp

lemma huge: "(2::real) ^ 51 < 2 powi 1023"
  by simp
section \<open>The registry and the tables\<close>

lemma percentage_85: "percentage ''85%'' = Some 85"
  by (simp add: percentage_def digit_val_def is_digit_def)

lemma percentage_80: "percentage ''80%'' = Some 80"
  by (simp add: percentage_def digit_val_def is_digit_def)

lemma percentage_70: "percentage ''70%'' = Some 70"
  by (simp add: percentage_def digit_val_def is_digit_def)

lemma percentage_60: "percentage ''60%'' = Some 60"
  by (simp add: percentage_def digit_val_def is_digit_def)

lemmas percentage_table = percentage_85 percentage_80 percentage_70 percentage_60

lemma assets_keys: "dom assets = {56, 137, 8453}"
  by (auto simp: assets_def split: if_splits)

lemma assets_i18n_keys: "dom assets_i18n = {56, 137, 8453}"
  by (auto simp: assets_i18n_def split: if_splits)

text \<open>
  C5. For a network identifier with no registered asset list the table components look up
  the empty list and render no row; for a registered identifier they render one row per
  asset of the list, in its order. This holds for any registry, so for both tables; no
  step of the lookup or of the row construction can fail.
\<close>

theorem table_rows_follow_registry:
  "(reg c = None \<longrightarrow> chainAssets reg c = [] \<and> table_body reg c = [])
   \<and> (\<forall>l. reg c = Some l \<longrightarrow>
        chainAssets reg c = l \<and> length (table_body reg c) = length l
        \<and> table_body reg c = map asset_row l)"
  by (simp add: table_body_def chainAssets_def)

theorem table_rows_follow_registry_witness:
  "assets 1 = None \<and> table_body assets 1 = []
   \<and> assets_i18n 1 = None \<and> table_body assets_i18n 1 = []
   \<and> assets 137 \<noteq> None \<and> length (table_body assets 137) = 5
   \<and> map cell_name (table_body assets 137) = [''WETH'', ''wstETH'', ''MATICX'', ''WMATIC'', ''WBTC'']
   \<and> assets_i18n 137 \<noteq> None \<and> length (table_body assets_i18n 137) = 3
   \<and> map cell_name (table_body assets_i18n 137) = [''WETH'', ''MATICX'', ''WMATIC'']"
  using table_rows_follow_registry [of assets 1] table_rows_follow_registry [of assets_i18n 1]
    table_rows_follow_registry [of assets 137] table_rows_follow_registry [of assets_i18n 137]
  by (simp add: assets_def assets_i18n_def asset_row_def mk_asset_def)

text \<open>
  C9. In both registries, for every network and every asset descriptor registered under
  it, the two percentage strings are numbers and the maximum loan-to-value percentage is
  at most the liquidation threshold percentage.
\<close>

theorem registry_ltv_within_threshold:
  "(assets c = Some l \<or> assets_i18n c = Some l) \<Longrightarrow> a \<in> set l \<Longrightarrow> ltv_within_threshold a"
  by (auto simp: assets_def assets_i18n_def mk_asset_def ltv_within_threshold_def
      percentage_table split: if_splits)

theorem registry_ltv_within_threshold_witness:
  "assets 8453 = Some (the (assets 8453)) \<and> hd (the (assets 8453)) \<in> set (the (assets 8453))
   \<and> maxLTV (hd (the (assets 8453))) = ''80%''
   \<and> liquidationThreshold (hd (the (assets 8453))) = ''85%''
   \<and> ltv_within_threshold (hd (the (assets 8453)))"
proof -
  have k: "assets 8453 = Some (the (assets 8453))"
    by (simp add: assets_def)
  have m: "hd (the (assets 8453)) \<in> set (the (assets 8453))"
    by (simp add: assets_def)
  show ?thesis
    using k m registry_ltv_within_threshold [OF disjI1 [OF k] m]
    by (simp add: assets_def mk_asset_def)
qed

section \<open>The Supply modal: validation\<close>

lemma truthy_string_simps [simp]:
  "truthy_string None = False" "truthy_string (Some v) = (v \<noteq> [])"
  by (simp_all add: truthy_string_def)

lemma validateAmount_isValid:
  "isValid (validateAmount bal v s) =
     (num_gt (parseFloat v) zero \<and> \<not> num_gt (parseFloat v) (parseFloat bal))"
  using positive_cases [of "parseFloat v"]
  by (auto simp: validateAmount_def Let_def)

text \<open>
  C1. For every amount string and every balance string, \<^verbatim>\<open>validateAmount\<close> sets the
  validity flag exactly when the amount parses as a number greater than zero that does not
  exceed the parsed balance; when the balance itself parses as a number this is the
  comparison \<^verbatim>\<open><=\<close>. With the balance \<^verbatim>\<open>"10.5"\<close> the input \<^verbatim>\<open>"10.5"\<close> is accepted,
  \<^verbatim>\<open>"10.6"\<close> is rejected with \<^verbatim>\<open>Amount exceeds wallet balance.\<close> and \<^verbatim>\<open>"0"\<close> is rejected with
  \<^verbatim>\<open>Amount must be greater than zero.\<close>
\<close>

theorem validateAmount_accepts_iff:
  "(isValid (validateAmount bal v s) \<longleftrightarrow>
      \<not> isNaN (parseFloat v) \<and> num_gt (parseFloat v) zero
      \<and> \<not> num_gt (parseFloat v) (parseFloat bal))
   \<and> (\<not> isNaN (parseFloat bal) \<longrightarrow>
        (isValid (validateAmount bal v s) \<longleftrightarrow>
           num_gt (parseFloat v) zero \<and> num_le (parseFloat v) (parseFloat bal)))
   \<and> isValid (validateAmount ''10.5'' ''10.5'' s)
   \<and> errorMessage (validateAmount ''10.5'' ''10.5'' s) = []
   \<and> \<not> isValid (validateAmount ''10.5'' ''10.6'' s)
   \<and> errorMessage (validateAmount ''10.5'' ''10.6'' s) = ''Amount exceeds wallet balance.''
   \<and> \<not> isValid (validateAmount ''10.5'' ''0'' s)
   \<and> errorMessage (validateAmount ''10.5'' ''0'' s) = ''Amount must be greater than zero.''"
proof -
  have gt_not_nan: "num_gt x zero \<Longrightarrow> \<not> isNaN x" for x
    by (cases x) (simp_all add: num_gt_def isNaN_def zero_def)
  have a: "isValid (validateAmount bal v s) \<longleftrightarrow>
      \<not> isNaN (parseFloat v) \<and> num_gt (parseFloat v) zero
      \<and> \<not> num_gt (parseFloat v) (parseFloat bal)"
    using gt_not_nan [of "parseFloat v"] by (auto simp: validateAmount_isValid)
  have b: "\<not> isNaN (parseFloat bal) \<longrightarrow>
        (isValid (validateAmount bal v s) \<longleftrightarrow>
           num_gt (parseFloat v) zero \<and> num_le (parseFloat v) (parseFloat bal))"
    using gt_not_nan [of "parseFloat v"]
    by (auto simp: validateAmount_isValid num_le_def num_gt_def)
  have c: "isValid (validateAmount ''10.5'' ''10.5'' s)
      \<and> errorMessage (validateAmount ''10.5'' ''10.5'' s) = []"
    by (simp add: validateAmount_def parseFloat_10_5 isNaN_def num_gt_def num_lt_zero
        strict_eq_zero signed_def)
  have d: "\<not> isValid (validateAmount ''10.5'' ''10.6'' s)
      \<and> errorMessage (validateAmount ''10.5'' ''10.6'' s) = ''Amount exceeds wallet balance.''"
    by (simp add: validateAmount_def parseFloat_10_5 parseFloat_10_6 isNaN_def num_gt_def
        num_lt_zero signed_def)
  have e: "\<not> isValid (validateAmount ''10.5'' ''0'' s)
      \<and> errorMessage (validateAmount ''10.5'' ''0'' s) = ''Amount must be greater than zero.''"
    by (simp add: validateAmount_def parseFloat_10_5 parseFloat_0 isNaN_def num_gt_def
        zero_def signed_def)
  from a b c d e show ?thesis by blast
qed

theorem validateAmount_accepts_iff_witness:
  "\<not> isNaN (parseFloat ''10.5'')
   \<and> isValid (validateAmount ''10.5'' ''5'' initial_state)
   \<and> num_gt (parseFloat ''5'') zero
   \<and> num_le (parseFloat ''5'') (parseFloat ''10.5'')"
  using validateAmount_accepts_iff [of "''10.5''" "''5''" initial_state]
  by (simp add: parseFloat_10_5 parseFloat_5 isNaN_def num_gt_def num_le_def zero_num_lt
      signed_def)

section \<open>The Supply modal: approval before supply\<close>

lemma handleSupplyClick_needs_approval:
  "\<not> isApproved s \<Longrightarrow> \<not> list_ex is_supply_call (handleSupplyClick f h r s)"
  by (simp add: handleSupplyClick_def split: option.splits)

lemma handle_supply_call:
  "list_ex is_supply_call (snd (snd (handle f p h s ev))) \<Longrightarrow>
     ev = SupplyClick \<and> isApproved s \<and> isValid s"
  by (cases ev)
    (auto simp: handle_def handleSupplyClick_def handleApproveClick_def handleCopyError_def
      handleClose_def supply_disabled_def split: option.splits if_splits)

lemma handle_approve_call:
  "list_ex is_approve_call (snd (snd (handle f p h s ev))) \<Longrightarrow>
     ev = ApproveClick \<and> isValid s \<and> \<not> approvePending h \<and> \<not> isApproved s"
  by (cases ev)
    (auto simp: handle_def handleSupplyClick_def handleApproveClick_def handleCopyError_def
      handleClose_def approve_disabled_def split: option.splits if_splits)

lemma step_calls: "snd (step f p (h, s) ev) = snd (snd (handle f p h s ev))"
  by (simp add: step_def split: prod.splits)

lemma form_buttons:
  "render p h s = Some v \<Longrightarrow> form v = Some fb \<Longrightarrow>
     approve_button_disabled fb = approve_disabled h s
     \<and> supply_button_disabled fb = supply_disabled s"
  by (auto simp: render_def split: option.splits if_splits)

text \<open>
  C3. In every state of the Supply modal in which the approval flag is false, whatever
  the validity flag: the Supply button is rendered disabled, \<^verbatim>\<open>handleSupplyClick\<close> itself
  makes no supply call, and no event at all leads to a supply call in that step.
\<close>

theorem supply_blocked_until_approved:
  assumes "\<not> isApproved s"
  shows "supply_disabled s
    \<and> (\<forall>v fb. render p h s = Some v \<and> form v = Some fb \<longrightarrow> supply_button_disabled fb)
    \<and> \<not> list_ex is_supply_call (handleSupplyClick f h r s)
    \<and> \<not> list_ex is_supply_call (snd (step f p (h, s) ev))"
proof -
  have a: "supply_disabled s"
    using assms by (simp add: supply_disabled_def)
  have b: "\<forall>v fb. render p h s = Some v \<and> form v = Some fb \<longrightarrow> supply_button_disabled fb"
    using a form_buttons by blast
  have c: "\<not> list_ex is_supply_call (handleSupplyClick f h r s)"
    using assms by (rule handleSupplyClick_needs_approval)
  have d: "\<not> list_ex is_supply_call (snd (step f p (h, s) ev))"
    using assms handle_supply_call [of f p h s ev] by (auto simp: step_calls)
  from a b c d show ?thesis by blast
qed

text \<open>
  The witness: after the amount \<^verbatim>\<open>"5"\<close> has been typed into the sample modal the amount is
  valid and the approval flag is false; a click on Supply makes no call.
\<close>

lemma open_props_fields:
  "isOpen open_props" "reserve open_props = Some usdc" "balance open_props = ''10.5''"
  by (simp_all add: open_props_def)

lemma idle_hooks_fields:
  "walletAddress idle_hooks = Some ''0x03397CabEAc33EE8FE3Eb79219Df7161C414dF4B''"
  "\<not> approveError idle_hooks" "\<not> approveSuccess idle_hooks" "\<not> approvePending idle_hooks"
  "\<not> supplyError idle_hooks" "error idle_hooks = None" "supplyData idle_hooks = None"
  by (simp_all add: idle_hooks_def)

lemma mounted_sample:
  "mount open_props idle_hooks =
     \<lparr>amount = [], isValid = False, errorMessage = ''Amount must be a positive number.'',
      data = None, isError = False, showSuccessIcon = False, isApproved = False\<rparr>"
  by (simp add: mount_def amount_effect_def approve_effect_def supply_effect_def
      initial_state_def validateAmount_def parseFloat_empty isNaN_def open_props_fields
      idle_hooks_fields)

lemma sample_form_shown:
  "data s = None \<Longrightarrow> \<not> isError s \<Longrightarrow> form_shown open_props h s"
  by (simp add: form_shown_def render_def open_props_fields)

lemma validate_5: "validateAmount ''10.5'' ''5'' s = s\<lparr>isValid := True, errorMessage := []\<rparr>"
  by (simp add: validateAmount_def parseFloat_5 parseFloat_10_5 isNaN_def num_lt_zero
      strict_eq_zero num_gt_def signed_def)

lemma typed_5:
  "snd (fst (step f open_props (idle_hooks, mount open_props idle_hooks) (Change ''5''))) =
     \<lparr>amount = ''5'', isValid = True, errorMessage = [], data = None, isError = False,
      showSuccessIcon = False, isApproved = False\<rparr>"
  by (simp add: step_def handle_def sample_form_shown mounted_sample handleChange_def
      run_effects_def amount_effect_def validate_5 open_props_fields)

theorem supply_blocked_until_approved_witness:
  "isValid (snd (fst (step whole_units open_props (idle_hooks, mount open_props idle_hooks) (Change ''5''))))
   \<and> \<not> isApproved (snd (fst (step whole_units open_props (idle_hooks, mount open_props idle_hooks) (Change ''5''))))
   \<and> supply_disabled (snd (fst (step whole_units open_props (idle_hooks, mount open_props idle_hooks) (Change ''5''))))
   \<and> \<not> list_ex is_supply_call
        (snd (step whole_units open_props
           (idle_hooks, snd (fst (step whole_units open_props (idle_hooks, mount open_props idle_hooks) (Change ''5''))))
           SupplyClick))"
proof -
  have n: "\<not> isApproved (snd (fst (step whole_units open_props (idle_hooks, mount open_props idle_hooks) (Change ''5''))))"
    by (simp add: typed_5)
  show ?thesis
    using n supply_blocked_until_approved [OF n, of open_props idle_hooks whole_units usdc SupplyClick]
    by (simp add: typed_5)
qed

section \<open>The Supply modal: when approval can be requested\<close>

text \<open>
  The approval flag follows the hook: when the hooks report that the approval has
  succeeded, the effect of that render sets the flag.
\<close>

lemma approval_success_sets_flag:
  "approveSuccess h' \<Longrightarrow> \<not> approveSuccess h \<Longrightarrow>
     isApproved (snd (fst (step f p (h, s) (HooksChanged h'))))"
  by (simp add: step_def handle_def run_effects_def approve_effect_def supply_effect_def
      amount_effect_def Let_def split: option.splits)

text \<open>
  \<^verbatim>\<open>handleApproveClick\<close> itself tests the wallet address only; what keeps it from running
  is the disabled button.
\<close>

lemma handleApproveClick_calls:
  "walletAddress h = Some w \<Longrightarrow> w \<noteq> [] \<Longrightarrow>
     handleApproveClick h r s = [Approve (adjustedAmount (decimals r) (amount s))]"
  by (simp add: handleApproveClick_def)

text \<open>Only \<^verbatim>\<open>handleClose\<close> clears the approval flag.\<close>

lemma run_effects_isApproved: "isApproved s \<Longrightarrow> isApproved (run_effects p a h h' s)"
  by (simp add: run_effects_def amount_effect_def approve_effect_def supply_effect_def
      validateAmount_def Let_def)

lemma handle_keeps_approval:
  "isApproved s \<Longrightarrow> ev \<noteq> CloseClick \<Longrightarrow> isApproved (fst (snd (handle f p h s ev)))"
  by (cases ev) (auto simp: handle_def handleChange_def handleMaxClick_def split: option.splits)

lemma step_keeps_approval:
  "isApproved (snd c) \<Longrightarrow> ev \<noteq> CloseClick \<Longrightarrow> isApproved (snd (fst (step f p c ev)))"
  using handle_keeps_approval [of "snd c" ev f p "fst c"]
  by (auto simp: step_def run_effects_isApproved split: prod.splits)

lemma run_keeps_approval:
  "isApproved (snd c) \<Longrightarrow> \<forall>pe\<in>set tr. snd pe \<noteq> CloseClick \<Longrightarrow> isApproved (snd (run f c tr))"
  by (induction tr arbitrary: c) (simp_all add: step_keeps_approval)

text \<open>
  The validity flag is written by \<^verbatim>\<open>validateAmount\<close>, which runs after a render in which
  the amount has changed, and by \<^verbatim>\<open>handleClose\<close>. As long as the balance is the same in
  every render, the flag is the verdict on the amount in the state.
\<close>

lemma amount_valid_empty: "\<not> amount_valid b []"
  by (simp add: amount_valid_def validateAmount_def parseFloat_empty isNaN_def)

lemma run_effects_amount: "amount (run_effects p a h h' s) = amount s"
  by (simp add: run_effects_def amount_effect_def approve_effect_def supply_effect_def
      validateAmount_def Let_def)

lemma run_effects_isValid:
  "isValid (run_effects p a h h' s) =
     (if amount s \<noteq> a then amount_valid (balance p) (amount s) else isValid s)"
  by (simp add: run_effects_def amount_effect_def approve_effect_def supply_effect_def
      amount_valid_def validateAmount_isValid Let_def)

lemma step_flag_follows_amount:
  assumes "isValid (snd c) = amount_valid (balance p) (amount (snd c))"
  shows "isValid (snd (fst (step f p c ev))) =
     amount_valid (balance p) (amount (snd (fst (step f p c ev))))"
  using assms
  by (cases ev)
    (auto simp: step_def handle_def handleChange_def handleMaxClick_def handleClose_def
      run_effects_amount run_effects_isValid amount_valid_empty split: option.splits)

lemma run_flag_follows_amount:
  "\<forall>pe\<in>set tr. balance (fst pe) = b \<Longrightarrow> isValid (snd c) = amount_valid b (amount (snd c)) \<Longrightarrow>
     isValid (snd (run f c tr)) = amount_valid b (amount (snd (run f c tr)))"
proof (induction tr arbitrary: c)
  case Nil
  then show ?case by simp
next
  case (Cons pe tr)
  have "isValid (snd (fst (step f (fst pe) c (snd pe)))) =
      amount_valid b (amount (snd (fst (step f (fst pe) c (snd pe)))))"
    using step_flag_follows_amount [of c "fst pe" f "snd pe"] Cons.prems by simp
  then show ?case
    using Cons.IH [of "fst (step f (fst pe) c (snd pe))"] Cons.prems by simp
qed

lemma validateAmount_amount: "amount (validateAmount b v s) = amount s"
  by (simp add: validateAmount_def Let_def)

lemma mount_flag_follows_amount:
  "isValid (mount p h) = amount_valid (balance p) (amount (mount p h))"
  by (simp add: mount_def amount_effect_def approve_effect_def supply_effect_def
      amount_valid_def validateAmount_isValid validateAmount_amount initial_state_def Let_def)

text \<open>
  C10, as the code has it. The Approve button is disabled by three flags: the validity
  flag of the state, the pending flag of \<^verbatim>\<open>useApproval\<close>, and the approval flag of the state.
  In every state, hence in every state that a session reaches, in which the validity flag
  is false, an approval is pending or the approval flag is set, the button is rendered
  disabled and no event leads to a call of \<^verbatim>\<open>approve\<close>. Once the hook reports success, the approval flag is set, and it stays set in
  every sequence of events without a click on Close. In a session in which every render
  has the same balance, the validity flag is the verdict of \<^verbatim>\<open>validateAmount\<close> on the
  entered amount, so that \<^verbatim>\<open>approve\<close> is not called while the amount is invalid.
\<close>

theorem approve_blocked_by_flags:
  "(\<not> isValid (snd c) \<or> approvePending (fst c) \<or> isApproved (snd c) \<longrightarrow>
      approve_disabled (fst c) (snd c)
      \<and> (\<forall>v fb. render p (fst c) (snd c) = Some v \<and> form v = Some fb \<longrightarrow>
             approve_button_disabled fb)
      \<and> \<not> list_ex is_approve_call (snd (step f p c ev)))
   \<and> (approveSuccess h' \<and> \<not> approveSuccess (fst c) \<and> (\<forall>pe\<in>set tr. snd pe \<noteq> CloseClick) \<longrightarrow>
      isApproved (snd (run f c ((p, HooksChanged h') # tr)))
      \<and> \<not> list_ex is_approve_call
          (snd (step f p' (run f c ((p, HooksChanged h') # tr)) ev)))
   \<and> ((\<forall>pe\<in>set tr'. balance (fst pe) = balance p0) \<longrightarrow>
      isValid (snd (run f (h0, mount p0 h0) tr')) =
        amount_valid (balance p0) (amount (snd (run f (h0, mount p0 h0) tr'))))
   \<and> ((\<forall>pe\<in>set tr'. balance (fst pe) = balance p0)
        \<and> \<not> amount_valid (balance p0) (amount (snd (run f (h0, mount p0 h0) tr'))) \<longrightarrow>
      \<not> list_ex is_approve_call (snd (step f p (run f (h0, mount p0 h0) tr') ev)))"
proof -
  have blocked: "\<not> list_ex is_approve_call (snd (step f q d ev))"
    if "\<not> isValid (snd d) \<or> approvePending (fst d) \<or> isApproved (snd d)" for q d
    using that handle_approve_call [of f q "fst d" "snd d" ev] step_calls [of f q "fst d" "snd d" ev]
    by auto
  have i: "\<not> isValid (snd c) \<or> approvePending (fst c) \<or> isApproved (snd c) \<longrightarrow>
      approve_disabled (fst c) (snd c)
      \<and> (\<forall>v fb. render p (fst c) (snd c) = Some v \<and> form v = Some fb \<longrightarrow>
             approve_button_disabled fb)
      \<and> \<not> list_ex is_approve_call (snd (step f p c ev))"
  proof
    assume d: "\<not> isValid (snd c) \<or> approvePending (fst c) \<or> isApproved (snd c)"
    then have "approve_disabled (fst c) (snd c)"
      by (simp add: approve_disabled_def)
    then show "approve_disabled (fst c) (snd c)
      \<and> (\<forall>v fb. render p (fst c) (snd c) = Some v \<and> form v = Some fb \<longrightarrow>
             approve_button_disabled fb)
      \<and> \<not> list_ex is_approve_call (snd (step f p c ev))"
      using form_buttons blocked [OF d] by blast
  qed
  have ii: "approveSuccess h' \<and> \<not> approveSuccess (fst c) \<and> (\<forall>pe\<in>set tr. snd pe \<noteq> CloseClick) \<longrightarrow>
      isApproved (snd (run f c ((p, HooksChanged h') # tr)))
      \<and> \<not> list_ex is_approve_call
          (snd (step f p' (run f c ((p, HooksChanged h') # tr)) ev))"
  proof
    assume h: "approveSuccess h' \<and> \<not> approveSuccess (fst c) \<and> (\<forall>pe\<in>set tr. snd pe \<noteq> CloseClick)"
    then have "isApproved (snd (fst (step f p c (HooksChanged h'))))"
      using approval_success_sets_flag [of h' "fst c" f p "snd c"] by simp
    then have "isApproved (snd (run f (fst (step f p c (HooksChanged h'))) tr))"
      using h by (intro run_keeps_approval) simp_all
    then have ap: "isApproved (snd (run f c ((p, HooksChanged h') # tr)))"
      by simp
    then show "isApproved (snd (run f c ((p, HooksChanged h') # tr)))
      \<and> \<not> list_ex is_approve_call
          (snd (step f p' (run f c ((p, HooksChanged h') # tr)) ev))"
      using blocked [of "run f c ((p, HooksChanged h') # tr)" p'] by blast
  qed
  have iii: "(\<forall>pe\<in>set tr'. balance (fst pe) = balance p0) \<longrightarrow>
      isValid (snd (run f (h0, mount p0 h0) tr')) =
        amount_valid (balance p0) (amount (snd (run f (h0, mount p0 h0) tr')))"
    using run_flag_follows_amount [of tr' "balance p0" "(h0, mount p0 h0)" f]
      mount_flag_follows_amount [of p0 h0]
    by simp
  have iv: "(\<forall>pe\<in>set tr'. balance (fst pe) = balance p0)
        \<and> \<not> amount_valid (balance p0) (amount (snd (run f (h0, mount p0 h0) tr'))) \<longrightarrow>
      \<not> list_ex is_approve_call (snd (step f p (run f (h0, mount p0 h0) tr') ev))"
    using iii blocked [of "run f (h0, mount p0 h0) tr'" p] by blast
  from i ii iii iv show ?thesis
    by (intro conjI)
qed

text \<open>
  The witness, a session of the sample modal: the amount \<^verbatim>\<open>"5"\<close> is typed and is valid; the
  hook reports a pending approval, and a click on Approve calls nothing; the hook reports
  success, and after a further change of the amount the approval flag is still set.
\<close>

lemma typed_5_config:
  "run f (idle_hooks, mount open_props idle_hooks) [(open_props, Change ''5'')] =
     (idle_hooks,
      \<lparr>amount = ''5'', isValid = True, errorMessage = [], data = None, isError = False,
       showSuccessIcon = False, isApproved = False\<rparr>)"
  by (simp add: step_def handle_def sample_form_shown mounted_sample handleChange_def
      run_effects_def amount_effect_def validate_5 open_props_fields)

lemma pending_config:
  "run f (idle_hooks, mount open_props idle_hooks)
       [(open_props, Change ''5''), (open_props, HooksChanged (idle_hooks\<lparr>approvePending := True\<rparr>))] =
     (idle_hooks\<lparr>approvePending := True\<rparr>,
      \<lparr>amount = ''5'', isValid = True, errorMessage = [], data = None, isError = False,
       showSuccessIcon = False, isApproved = False\<rparr>)"
  by (simp add: step_def handle_def sample_form_shown mounted_sample handleChange_def
      run_effects_def amount_effect_def validate_5 open_props_fields idle_hooks_fields)

lemma amount_valid_5: "amount_valid ''10.5'' ''5''"
  by (simp add: amount_valid_def validate_5)

theorem approve_blocked_by_flags_witness:
  "approvePending (fst (run whole_units (idle_hooks, mount open_props idle_hooks)
       [(open_props, Change ''5''), (open_props, HooksChanged (idle_hooks\<lparr>approvePending := True\<rparr>))]))
   \<and> \<not> list_ex is_approve_call
        (snd (step whole_units open_props
           (run whole_units (idle_hooks, mount open_props idle_hooks)
              [(open_props, Change ''5''), (open_props, HooksChanged (idle_hooks\<lparr>approvePending := True\<rparr>))])
           ApproveClick))
   \<and> isApproved (snd (run whole_units
        (run whole_units (idle_hooks, mount open_props idle_hooks)
           [(open_props, Change ''5''), (open_props, HooksChanged (idle_hooks\<lparr>approvePending := True\<rparr>))])
        [(open_props, HooksChanged (idle_hooks\<lparr>approveSuccess := True\<rparr>)), (open_props, Change ''5'')]))
   \<and> isValid (snd (run whole_units (idle_hooks, mount open_props idle_hooks) [(open_props, Change ''5'')]))
   \<and> amount_valid ''10.5'' ''5''"
  using approve_blocked_by_flags
    [of "run whole_units (idle_hooks, mount open_props idle_hooks)
           [(open_props, Change ''5''), (open_props, HooksChanged (idle_hooks\<lparr>approvePending := True\<rparr>))]"
        open_props whole_units ApproveClick "idle_hooks\<lparr>approveSuccess := True\<rparr>"
        "[(open_props, Change ''5'')]" open_props "[(open_props, Change ''5'')]" open_props idle_hooks]
  unfolding pending_config typed_5_config
  by (simp add: idle_hooks_fields open_props_fields amount_valid_5)

text \<open>
  The validity flag is not the validity of the amount once the balance has changed. In the
  sample modal the amount \<^verbatim>\<open>"10"\<close> is typed against the balance \<^verbatim>\<open>"10.5"\<close>; the next render
  has the balance \<^verbatim>\<open>"5"\<close>, which starts no effect; the amount now exceeds the balance, but
  the button is enabled and a click hands \<^verbatim>\<open>0.000000000010000000\<close> to \<^verbatim>\<open>approve\<close>.
\<close>

lemma parseFloat_10: "parseFloat ''10'' = Finite False 5629499534213120 (- 49)"
  by (simp add: parse_eval round_eval)

lemma validate_10:
  "validateAmount ''10.5'' ''10'' s = s\<lparr>isValid := True, errorMessage := []\<rparr>"
  by (simp add: validateAmount_def parseFloat_10 parseFloat_10_5 isNaN_def num_lt_zero
      strict_eq_zero num_gt_def signed_def)

lemma typed_10_config:
  "run f (idle_hooks, mount open_props idle_hooks) [(open_props, Change ''10'')] =
     (idle_hooks,
      \<lparr>amount = ''10'', isValid = True, errorMessage = [], data = None, isError = False,
       showSuccessIcon = False, isApproved = False\<rparr>)"
  by (simp add: step_def handle_def sample_form_shown mounted_sample handleChange_def
      run_effects_def amount_effect_def validate_10 open_props_fields)

lemma quotient_10:
  "num_div (Finite False 5629499534213120 (- 49)) (Finite False 8192000000000000 (- 13)) =
     Finite False 6189700196426901 (- 89)"
  by (simp add: round_eval)

lemma toFixed_10:
  "toFixed (Finite False 6189700196426901 (- 89)) 18 = ''0.000000000010000000''"
  by (simp add: fixed_eval)

lemma adjusted_10: "adjustedAmount 6 ''10'' = ''0.000000000010000000''"
  by (simp add: adjustedAmount_def parseFloat_10 pow10_12 quotient_10 toFixed_10
      del: toFixed.simps num_div.simps)

theorem stale_validity_calls_approve:
  "amount (snd (run whole_units (idle_hooks, mount open_props idle_hooks) [(open_props, Change ''10'')])) = ''10''
   \<and> \<not> amount_valid ''5'' ''10''
   \<and> snd (step whole_units (open_props\<lparr>balance := ''5''\<rparr>)
        (run whole_units (idle_hooks, mount open_props idle_hooks) [(open_props, Change ''10'')])
        ApproveClick) = [Approve ''0.000000000010000000'']"
proof -
  have v: "\<not> amount_valid ''5'' ''10''"
    by (simp add: amount_valid_def validateAmount_def parseFloat_10 parseFloat_5 isNaN_def
        num_lt_zero num_gt_def signed_def)
  have f: "form_shown (open_props\<lparr>balance := ''5''\<rparr>) idle_hooks
      \<lparr>amount = ''10'', isValid = True, errorMessage = [], data = None, isError = False,
       showSuccessIcon = False, isApproved = False\<rparr>"
    by (simp add: form_shown_def render_def open_props_fields)
  have c: "snd (step whole_units (open_props\<lparr>balance := ''5''\<rparr>)
        (idle_hooks,
         \<lparr>amount = ''10'', isValid = True, errorMessage = [], data = None, isError = False,
          showSuccessIcon = False, isApproved = False\<rparr>)
        ApproveClick) = [Approve ''0.000000000010000000'']"
    by (simp add: step_def handle_def f open_props_fields idle_hooks_fields
        approve_disabled_def handleApproveClick_def usdc_def adjusted_10)
  show ?thesis
    unfolding typed_10_config using v c by simp
qed
section \<open>The Supply modal: closing\<close>

lemma validate_empty:
  "validateAmount bal [] s = s\<lparr>isValid := False, errorMessage := ''Amount must be a positive number.''\<rparr>"
  by (simp add: validateAmount_def parseFloat_empty isNaN_def)

text \<open>
  C4, as the code has it. \<^verbatim>\<open>handleClose\<close> sets the amount, the validity flag, the error
  message, the submission result, the error flag and the approval flag to the values of
  their \<^verbatim>\<open>useState\<close> declarations (only the flag of the copied notice keeps its value) and
  calls \<^verbatim>\<open>onClose\<close>. In the render that follows, the amount effect runs when the amount has
  changed, that is, when it was not empty, and validates the empty amount: the five other
  fields keep their initial values, and the error message is then
  \<^verbatim>\<open>Amount must be a positive number.\<close>, the message that the modal also has after its
  first render.
\<close>

theorem close_resets_form_state:
  "fst (handleClose s) = initial_state\<lparr>showSuccessIcon := showSuccessIcon s\<rparr>
   \<and> snd (handleClose s) = [OnClose]
   \<and> run_effects p (amount s) h h (fst (handleClose s)) =
       initial_state
         \<lparr>showSuccessIcon := showSuccessIcon s,
          errorMessage := (if amount s = [] then [] else ''Amount must be a positive number.'')\<rparr>"
  by (simp add: handleClose_def initial_state_def run_effects_def amount_effect_def
      validate_empty)

lemma close_step:
  "close_shown p h s \<Longrightarrow>
     fst (step f p (h, s) CloseClick) = (h, run_effects p (amount s) h h (fst (handleClose s)))"
  by (simp add: step_def handle_def handleClose_def)

lemma sample_close_shown:
  "data s = None \<Longrightarrow> \<not> isError s \<Longrightarrow> close_shown open_props h s"
  by (simp add: close_shown_def render_def open_props_fields)

theorem close_resets_form_state_witness:
  "snd (fst (step whole_units open_props
       (idle_hooks, snd (fst (step whole_units open_props (idle_hooks, mount open_props idle_hooks) (Change ''5''))))
       CloseClick)) =
     \<lparr>amount = [], isValid = False, errorMessage = ''Amount must be a positive number.'',
      data = None, isError = False, showSuccessIcon = False, isApproved = False\<rparr>"
  unfolding typed_5
  using close_resets_form_state
    [of "\<lparr>amount = ''5'', isValid = True, errorMessage = [], data = None, isError = False,
          showSuccessIcon = False, isApproved = False\<rparr>" open_props idle_hooks]
  by (simp add: close_step sample_close_shown initial_state_def handleClose_def)

text \<open>
  The error message does not return to its initial value, whatever counts as initial:
  closing the sample modal after \<^verbatim>\<open>"5"\<close> was typed leaves the message
  \<^verbatim>\<open>Amount must be a positive number.\<close>, not the empty message of the \<^verbatim>\<open>useState\<close>
  declaration; closing it right after the first render leaves the empty message, not the
  message that the modal had when it was first opened.
\<close>

theorem close_leaves_error_message:
  "errorMessage (snd (fst (step whole_units open_props
       (idle_hooks, snd (fst (step whole_units open_props (idle_hooks, mount open_props idle_hooks) (Change ''5''))))
       CloseClick))) = ''Amount must be a positive number.''
   \<and> errorMessage initial_state = []
   \<and> errorMessage (snd (fst (step whole_units open_props
       (idle_hooks, mount open_props idle_hooks) CloseClick))) = []
   \<and> errorMessage (mount open_props idle_hooks) = ''Amount must be a positive number.''"
proof -
  have a: "errorMessage (snd (fst (step whole_units open_props
       (idle_hooks, snd (fst (step whole_units open_props (idle_hooks, mount open_props idle_hooks) (Change ''5''))))
       CloseClick))) = ''Amount must be a positive number.''"
    unfolding typed_5
    by (simp add: close_step sample_close_shown handleClose_def run_effects_def
        amount_effect_def validate_empty)
  have b: "errorMessage (snd (fst (step whole_units open_props
       (idle_hooks, mount open_props idle_hooks) CloseClick))) = []"
    unfolding mounted_sample
    by (simp add: close_step sample_close_shown handleClose_def run_effects_def)
  from a b show ?thesis
    by (simp add: initial_state_def mounted_sample)
qed

section \<open>The Supply modal: errors of the external calls\<close>

text \<open>
  C6 at the failing input. The sample modal holds the valid amount \<^verbatim>\<open>"5"\<close>. When
  \<^verbatim>\<open>useSupply\<close> reports an error with the message \<^verbatim>\<open>User rejected the request.\<close>, the effect
  stores the message and sets the error flag; the form is then hidden, and the error block,
  which is rendered for an approval error only, is not shown: the modal shows its title and
  nothing else. When \<^verbatim>\<open>useApproval\<close> reports an error, the error block is shown, but its
  text and its copy button are bound to the error of \<^verbatim>\<open>useSupply\<close>, of which there is none:
  the text is empty and a click on the copy button copies nothing.
\<close>

theorem external_errors_not_surfaced:
  "fst (step whole_units open_props
       (idle_hooks, \<lparr>amount = ''5'', isValid = True, errorMessage = [], data = None,
          isError = False, showSuccessIcon = False, isApproved = True\<rparr>)
       (HooksChanged (idle_hooks\<lparr>supplyError := True, error := Some ''User rejected the request.''\<rparr>))) =
     (idle_hooks\<lparr>supplyError := True, error := Some ''User rejected the request.''\<rparr>,
      \<lparr>amount = ''5'', isValid = True, errorMessage = ''User rejected the request.'', data = None,
       isError = True, showSuccessIcon = False, isApproved = True\<rparr>)
   \<and> render open_props (idle_hooks\<lparr>supplyError := True, error := Some ''User rejected the request.''\<rparr>)
       \<lparr>amount = ''5'', isValid = True, errorMessage = ''User rejected the request.'', data = None,
        isError = True, showSuccessIcon = False, isApproved = True\<rparr> =
     Some \<lparr>title = ''Supply USDC'', form = None, confirmation = False, error_panel = None\<rparr>
   \<and> map_option error_panel
       (render open_props (idle_hooks\<lparr>approveError := True\<rparr>)
          \<lparr>amount = ''5'', isValid = True, errorMessage = [], data = None,
           isError = False, showSuccessIcon = False, isApproved = False\<rparr>) =
     Some (Some \<lparr>message_text = None, copied_notice = False\<rparr>)
   \<and> snd (step whole_units open_props
       (idle_hooks\<lparr>approveError := True\<rparr>,
        \<lparr>amount = ''5'', isValid = True, errorMessage = [], data = None,
         isError = False, showSuccessIcon = False, isApproved = False\<rparr>)
       CopyErrorClick) = []"
  by (simp add: step_def handle_def run_effects_def supply_effect_def approve_effect_def
      render_def open_props_fields idle_hooks_fields usdc_def error_shown_def
      handleCopyError_def)

text \<open>No call is repeated by the component: calls are made in answer to clicks only.\<close>

lemma calls_need_a_click:
  "snd (step f p (h, s) ev) \<noteq> [] \<Longrightarrow>
     ev \<in> {ApproveClick, SupplyClick, CloseClick, CopyErrorClick, ClipboardResolved, ClipboardRejected}"
  by (cases ev) (auto simp: step_calls handle_def split: if_splits option.splits)

section \<open>The Supply modal: conversion of the amount\<close>

lemma parseFloat_1_234567: "parseFloat ''1.234567'' = Finite False 5559995481163911 (- 52)"
  by (simp add: parse_eval round_eval)

lemma quotient_1_234567:
  "num_div (Finite False 5559995481163911 (- 52)) (Finite False 8192000000000000 (- 13)) =
     Finite False 6113279681921736 (- 92)"
  by (simp add: round_eval)

lemma toFixed_1_234567:
  "toFixed (Finite False 6113279681921736 (- 92)) 18 = ''0.000000000001234567''"
  by (simp add: fixed_eval)

lemma adjusted_1_234567: "adjustedAmount 6 ''1.234567'' = ''0.000000000001234567''"
  by (simp add: adjustedAmount_def parseFloat_1_234567 pow10_12 quotient_1_234567
      toFixed_1_234567 del: toFixed.simps num_div.simps)

lemmas units_eval = decimal_units_def fraction_units_def is_digit_def nat_of_digits_def

text \<open>
  For the token with 6 decimals and the amount \<^verbatim>\<open>"1.234567"\<close>, \<^verbatim>\<open>handleApproveClick\<close> hands
  the string \<^verbatim>\<open>0.000000000001234567\<close> to \<^verbatim>\<open>approve\<close>.
\<close>

lemma approve_1_234567:
  "adjustedAmount 6 ''1.234567'' = ''0.000000000001234567''
   \<and> adjustedAmount dec a =
       (if dec < 18 then toFixed (num_div (parseFloat a) (pow10 (18 - dec))) 18 else a)"
  by (simp add: adjusted_1_234567) (simp add: adjustedAmount_def)

text \<open>
  C2, as the code has it. \<^verbatim>\<open>handleApproveClick\<close> computes in binary64 arithmetic: for a
  token with fewer than 18 decimals the parsed amount is divided by \<open>10\<^sup>1\<^sup>8\<^sup>-\<^sup>d\<^sup>e\<^sup>c\<close> and
  printed with 18 digits after the point. If the amount is a plain decimal numeral (digits,
  at most one point, no more fraction digits than the token has decimals) worth \<open>N\<close> native
  units of the token, and \<open>N < 2\<^sup>5\<^sup>0\<close>, then the string handed to \<^verbatim>\<open>approve\<close> is a plain
  decimal numeral worth exactly \<open>N\<close> units of \<open>10\<^sup>-\<^sup>1\<^sup>8\<close>: the two roundings, of
  \<^verbatim>\<open>parseFloat\<close> and of the division, move the value by less than half a unit, and
  \<^verbatim>\<open>toFixed\<close> rounds it back to \<open>N\<close>.
\<close>

theorem approve_amount_exact:
  assumes "dec < 18" and "decimal_units dec a = Some N" and "N < 2 ^ 50"
  shows "decimal_units 18 (adjustedAmount dec a) = Some N"
proof -
  obtain D k where k: "k \<le> dec" and pf: "parseFloat a = decimal_to_number False D (- int k)"
    and n: "N = D * 10 ^ (dec - k)"
    using parse_plain_decimal [OF assms(2)] by blast
  define j where "j = 18 - dec"
  have j: "1 \<le> j" "j \<le> 18"
    using assms(1) by (simp_all add: j_def)
  obtain mj ej where pj: "pow10 j = Finite False mj ej" and mj: "0 < mj"
    and vj: "real mj * 2 powi ej = 10 ^ j"
    using pow10_exact [OF j] by blast
  have adj: "adjustedAmount dec a = toFixed (num_div (parseFloat a) (pow10 j)) 18"
    using assms(1) by (simp add: adjustedAmount_def j_def)
  show ?thesis
  proof (cases "D = 0")
    case True
    then have "parseFloat a = Finite False 0 (- 1074)"
      by (simp add: pf decimal_to_number_def round_double_def)
    then have "num_div (parseFloat a) (pow10 j) = Finite False 0 (- 1074)"
      using mj by (simp add: pj round_double_def)
    moreover have "N = 0"
      using True n by simp
    ultimately show ?thesis
      using toFixed_units [of 0 "- 1074" 0] by (simp add: adj del: toFixed.simps)
  next
    case False
    then have dpos: "0 < D"
      by simp
    define v where "v = real D / 10 ^ k"
    define P where "P = (10::real) ^ j"
    define T where "T = (10::real) ^ dec"
    have PT: "P * T = 10 ^ 18"
      using assms(1) by (simp add: P_def T_def j_def power_add [symmetric])
    have Ppos: "0 < P" and Tpos: "0 < T" and P1: "1 \<le> P"
      by (simp_all add: P_def T_def)
    have P18: "P \<le> 10 ^ 18"
      unfolding P_def using j(2) by (intro power_increasing) simp_all
    have k17: "k \<le> 17"
      using k assms(1) by simp
    have vT: "real N = v * T"
    proof -
      have "(10::real) ^ dec = 10 ^ k * 10 ^ (dec - k)"
        using k by (simp add: power_add [symmetric])
      then show ?thesis
        by (simp add: n v_def T_def)
    qed
    have v_lo: "1 / 10 ^ 17 \<le> v"
    proof -
      have "(10::real) ^ k \<le> 10 ^ 17"
        using k17 by (intro power_increasing) simp_all
      then have "1 / (10::real) ^ 17 \<le> 1 / 10 ^ k"
        by (intro divide_left_mono) simp_all
      also have "\<dots> \<le> real D / 10 ^ k"
        using dpos by (intro divide_right_mono) simp_all
      finally show ?thesis
        by (simp add: v_def)
    qed
    have vpos: "0 < v"
      using v_lo by (rule less_le_trans [rotated]) simp
    have N50: "real N < 2 ^ 50"
      using assms(3) of_nat_less_iff [where ?'a = real, of N "2 ^ 50"] by simp
    have T1: "1 \<le> T"
      by (simp add: T_def)
    have v_hi: "v < 2 ^ 50"
    proof -
      have "v * 1 \<le> v * T"
        using T1 vpos by (intro mult_left_mono) simp_all
      then show ?thesis
        using N50 vT by simp
    qed
    obtain n1 d1 where r1: "decimal_to_number False D (- int k) = round_double False n1 d1"
      and n1: "0 < n1" and d1: "0 < d1" and q1: "real n1 / real d1 = v"
      using decimal_to_number_ratio [OF dpos, of k] unfolding v_def by blast
    have "2 powi (- 1022) \<le> real n1 / real d1"
      unfolding q1 using v_lo tiny by (simp add: field_simps)
    moreover have "real n1 / real d1 < 2 powi 1023"
      unfolding q1 using v_hi huge by simp
    ultimately obtain m1 e1 where x1: "round_double False n1 d1 = Finite False m1 e1"
      and m1: "0 < m1"
      and err1: "\<bar>real m1 * 2 powi e1 - v\<bar> \<le> v / 2 ^ 53"
      using round_double_relative [OF n1 d1, of False] unfolding q1 by blast
    define x where "x = real m1 * 2 powi e1"
    have "v / 2 ^ 53 \<le> v / 2"
      using vpos by (intro divide_left_mono) simp_all
    with err1 have "\<bar>x - v\<bar> \<le> v / 2"
      unfolding x_def [symmetric] by (rule order_trans)
    then have x_lo: "v / 2 \<le> x" and x_hi: "x \<le> 2 * v"
      using vpos by linarith+
    define y where "y = x / P"
    have ypos: "0 < y"
      using x_lo vpos Ppos by (simp add: y_def)
    have nd: "num_div (Finite False m1 e1) (Finite False mj ej) =
        round_double False (m1 * 2 ^ nat (e1 - ej)) (mj * 2 ^ nat (ej - e1))"
      and q2: "real (m1 * 2 ^ nat (e1 - ej)) / real (mj * 2 ^ nat (ej - e1)) = y"
      using num_div_positive [OF mj, of m1 e1 ej] by (simp_all add: y_def x_def vj P_def)
    have y_lo: "2 powi (- 1022) \<le> y"
    proof -
      have "1 / (2 * 10 ^ 17 * 10 ^ 18) \<le> v / 2 / 10 ^ 18"
        using v_lo by (simp add: field_simps)
      also have "\<dots> \<le> x / 10 ^ 18"
        using x_lo by (intro divide_right_mono) simp_all
      also have "\<dots> \<le> x / P"
        using P18 Ppos x_lo vpos by (intro divide_left_mono) simp_all
      finally show ?thesis
        using tiny by (simp add: y_def)
    qed
    have y_hi: "y < 2 powi 1023"
    proof -
      have "y \<le> x / 1"
        unfolding y_def using P1 x_lo vpos by (intro divide_left_mono) simp_all
      then have "y < 2 ^ 51"
        using x_hi v_hi by simp
      with huge show ?thesis
        by simp
    qed
    have n2: "0 < m1 * 2 ^ nat (e1 - ej)" and d2: "0 < mj * 2 ^ nat (ej - e1)"
      using m1 mj by simp_all
    obtain m2 e2 where x2: "round_double False (m1 * 2 ^ nat (e1 - ej)) (mj * 2 ^ nat (ej - e1)) =
        Finite False m2 e2"
      and err2: "\<bar>real m2 * 2 powi e2 - y\<bar> \<le> y / 2 ^ 53"
      using round_double_relative [OF n2 d2, of False] y_lo y_hi unfolding q2 by blast
    define z where "z = real m2 * 2 powi e2"
    have yPT: "y * (P * T) = x * T"
      using Ppos by (simp add: y_def)
    have "(z - y) * (P * T) + (x - v) * T = z * (P * T) - y * (P * T) + x * T - v * T"
      by (simp add: left_diff_distrib)
    also have "\<dots> = z * (P * T) - v * T"
      by (simp add: yPT)
    finally have "z * 10 ^ 18 - real N = (z - y) * (P * T) + (x - v) * T"
      by (simp only: PT vT)
    then have "\<bar>z * 10 ^ 18 - real N\<bar> \<le> \<bar>(z - y) * (P * T)\<bar> + \<bar>(x - v) * T\<bar>"
      by (simp only: abs_triangle_ineq)
    also have "\<bar>(z - y) * (P * T)\<bar> = \<bar>z - y\<bar> * (P * T)"
      using Ppos Tpos by (simp add: abs_mult)
    also have "\<bar>(x - v) * T\<bar> = \<bar>x - v\<bar> * T"
      using Tpos by (simp add: abs_mult)
    also have "\<bar>z - y\<bar> * (P * T) + \<bar>x - v\<bar> * T \<le> y / 2 ^ 53 * (P * T) + v / 2 ^ 53 * T"
      using err2 err1 Ppos Tpos unfolding z_def [symmetric] x_def [symmetric]
      by (intro add_mono mult_right_mono) simp_all
    also have "y / 2 ^ 53 * (P * T) = x * T / 2 ^ 53"
      using Ppos by (simp add: y_def)
    also have "x * T / 2 ^ 53 + v / 2 ^ 53 * T \<le> 2 * v * T / 2 ^ 53 + v * T / 2 ^ 53"
      using x_hi Tpos by (simp add: divide_right_mono mult_right_mono)
    also have "\<dots> = 3 * real N / 2 ^ 53"
      by (simp add: vT)
    also have "\<dots> < 1 / 2"
      using N50 by simp
    finally have "\<bar>real m2 * 2 powi e2 * 10 ^ 18 - real N\<bar> < 1 / 2"
      by (simp add: z_def)
    then have "decimal_units 18 (toFixed (Finite False m2 e2) 18) = Some N"
      using assms(3) by (rule toFixed_units)
    then show ?thesis
      by (simp only: adj pf r1 x1 pj nd x2)
  qed
qed

text \<open>
  The amount \<^verbatim>\<open>"1.234567"\<close> of a token with 6 decimals is worth 1234567 native units, and
  so is the string handed to \<^verbatim>\<open>approve\<close>.
\<close>

theorem approve_amount_exact_witness:
  "(6::nat) < 18 \<and> decimal_units 6 ''1.234567'' = Some 1234567 \<and> (1234567::nat) < 2 ^ 50
   \<and> decimal_units 18 (adjustedAmount 6 ''1.234567'') = Some 1234567"
proof -
  have u: "decimal_units 6 ''1.234567'' = Some 1234567"
    by (simp add: units_eval)
  have "decimal_units 18 (adjustedAmount 6 ''1.234567'') = Some 1234567"
    by (rule approve_amount_exact [OF _ u]) simp_all
  with u show ?thesis
    by simp
qed

text \<open>
  Without the bound on the amount the conversion is not exact. For the token with 6
  decimals, the amounts
  \<^verbatim>\<open>"12345678901.234567"\<close> and \<^verbatim>\<open>"12345678901.234568"\<close> differ by one native unit, but
  \<^verbatim>\<open>parseFloat\<close> gives the same number for both, so neither conversion can tell them apart;
  for the first, \<^verbatim>\<open>approve\<close> receives \<^verbatim>\<open>0.012345678901234568\<close>, one unit more than the
  amount.
\<close>

theorem conversion_loses_a_unit:
  "parseFloat ''12345678901.234567'' = parseFloat ''12345678901.234568''
   \<and> adjustedAmount 6 ''12345678901.234567'' = ''0.012345678901234568''
   \<and> decimal_units 18 ''0.012345678901234568'' = Some 12345678901234568
   \<and> decimal_units 6 ''12345678901.234567'' = Some 12345678901234567
   \<and> decimal_units 6 ''12345678901.234568'' = Some 12345678901234568"
proof -
  have a: "parseFloat ''12345678901.234567'' = Finite False 6472691299770469 (- 19)"
    by (simp add: parse_eval round_eval)
  have b: "parseFloat ''12345678901.234568'' = Finite False 6472691299770469 (- 19)"
    by (simp add: parse_eval round_eval)
  have q: "num_div (Finite False 6472691299770469 (- 19)) (Finite False 8192000000000000 (- 13)) =
      Finite False 7116799347102182 (- 59)"
    by (simp add: round_eval)
  have f: "toFixed (Finite False 7116799347102182 (- 59)) 18 = ''0.012345678901234568''"
    by (simp add: fixed_eval)
  have c: "adjustedAmount 6 ''12345678901.234567'' = ''0.012345678901234568''"
    by (simp add: adjustedAmount_def a pow10_12 q f del: toFixed.simps num_div.simps)
  show ?thesis
    by (simp add: a b c) (simp add: units_eval)
qed

section \<open>The deposits table\<close>

lemma toFixed_zero_6: "toFixed zero 6 = ''0.000000''"
  by (simp add: zero_def fixed_eval)

lemma parseFloat_0_000000: "parseFloat ''0.000000'' = zero"
  by (simp add: parse_eval round_eval zero_def)

lemma shown6_zeros: "i < 5 \<Longrightarrow> shown6 [zero, zero, zero, zero, zero] i = zero"
proof -
  assume "i < 5"
  have "[zero, zero, zero, zero, zero] = replicate 5 zero"
    by (simp add: numeral_eq_Suc)
  with \<open>i < 5\<close> have "[zero, zero, zero, zero, zero] ! i = zero"
    by simp
  then show ?thesis
    by (simp add: shown6_def toFixed_zero_6 parseFloat_0_000000 del: toFixed.simps)
qed

lemma minting_power_no_data: "parseFloat (formattedMintingPower None) = zero"
  by (simp add: formattedMintingPower_def parseFloat_0)

lemma format_batch_length:
  "batch = None \<or> (\<exists>bs. batch = Some bs \<and> length bs = 5) \<Longrightarrow> length (format_batch batch) = 5"
  by (auto simp: format_batch_def)

lemma deposits_rows:
  assumes "deposits bd bm mp = Inr tbl" and "tbl c = Some ds" and "d \<in> set ds"
  shows "dep_amount d \<in> shown6 (formattedBalances bd) ` {0, 1, 2, 3, 4}
         \<and> minted d \<in> shown6 (formattedMints bm) ` {0, 1, 2, 3, 4}
         \<and> mintingPower d = parseFloat (formattedMintingPower mp)"
proof -
  have ok: "\<not> (length (formattedBalances bd) < 5 \<or> length (formattedMints bm) < 5)"
    using assms(1) by (auto simp: deposits_def Let_def split: if_splits)
  have "c = 56 \<or> c = 137 \<or> c = 8453"
    using assms(1,2) ok by (auto simp: deposits_def Let_def split: if_splits)
  then show ?thesis
    using assms ok
    by (elim disjE) (auto simp: deposits_def Let_def mk_deposit_def)
qed

lemma all_zero_no_data: "allDepositsZero None"
  by (simp add: allDepositsZero_def formattedBalances_def format_batch_def zero_def signed_def)

text \<open>
  C7. A read without data does not fail the render. While the batch of deposits has no
  data, every deposit of every chain has the amount zero, and the component shows its
  placeholder; while the batch of mints has no data, every deposit has zero minted; while
  the minting power has no data, every deposit has the minting power zero. On the lending
  page an error of the account data read shows the error notice in the header, and missing
  account data show zero for both figures.
\<close>

theorem no_data_shows_zero:
  "(deposits None bm mp = Inr tbl \<and> tbl c = Some ds \<and> d \<in> set ds \<longrightarrow> dep_amount d = zero)
   \<and> (deposits bd None mp = Inr tbl \<and> tbl c = Some ds \<and> d \<in> set ds \<longrightarrow> minted d = zero)
   \<and> (deposits bd bm None = Inr tbl \<and> tbl c = Some ds \<and> d \<in> set ds \<longrightarrow> mintingPower d = zero)
   \<and> (\<exists>t. deposits None None None = Inr t)
   \<and> YourDeposits c None None None = Inr NothingDeposited
   \<and> (\<forall>v. YourDeposits c None bm mp = Inr v \<longrightarrow> v = NothingDeposited)
   \<and> lending_header False True u sb bb = ErrorLoadingData
   \<and> lending_header False False None sb bb = ProfileStats (num_sub sb bb) zero zero"
proof -
  have a: "deposits None bm mp = Inr tbl \<and> tbl c = Some ds \<and> d \<in> set ds \<longrightarrow> dep_amount d = zero"
  proof
    assume h: "deposits None bm mp = Inr tbl \<and> tbl c = Some ds \<and> d \<in> set ds"
    then have "dep_amount d \<in> shown6 [zero, zero, zero, zero, zero] ` {0, 1, 2, 3, 4}"
      using deposits_rows [of None bm mp tbl c ds d]
      by (simp add: formattedBalances_def format_batch_def)
    then show "dep_amount d = zero"
      by (auto simp: shown6_zeros)
  qed
  have b: "deposits bd None mp = Inr tbl \<and> tbl c = Some ds \<and> d \<in> set ds \<longrightarrow> minted d = zero"
  proof
    assume h: "deposits bd None mp = Inr tbl \<and> tbl c = Some ds \<and> d \<in> set ds"
    then have "minted d \<in> shown6 [zero, zero, zero, zero, zero] ` {0, 1, 2, 3, 4}"
      using deposits_rows [of bd None mp tbl c ds d]
      by (simp add: formattedMints_def format_batch_def)
    then show "minted d = zero"
      by (auto simp: shown6_zeros)
  qed
  have c: "deposits bd bm None = Inr tbl \<and> tbl c = Some ds \<and> d \<in> set ds \<longrightarrow> mintingPower d = zero"
    using deposits_rows [of bd bm None tbl c ds d] by (auto simp: minting_power_no_data)
  have d: "\<exists>t. deposits None None None = Inr t"
    by (simp add: deposits_def Let_def formattedBalances_def formattedMints_def format_batch_def)
  have e: "\<forall>v. YourDeposits c None bm mp = Inr v \<longrightarrow> v = NothingDeposited"
    by (auto simp: YourDeposits_def all_zero_no_data split: sum.splits)
  have f: "YourDeposits c None None None = Inr NothingDeposited"
    using d by (auto simp: YourDeposits_def all_zero_no_data split: sum.splits)
  have g: "lending_header False True u sb bb = ErrorLoadingData"
    by (simp add: lending_header_def Let_def)
  have h: "lending_header False False None sb bb = ProfileStats (num_sub sb bb) zero zero"
    by (simp add: lending_header_def Let_def or_zero_def)
  from a b c d e f g h show ?thesis by blast
qed

theorem no_data_shows_zero_witness:
  "\<exists>t ds d. deposits None None None = Inr t \<and> t 56 = Some ds \<and> d \<in> set ds
     \<and> dep_symbol d = ''WETH'' \<and> dep_amount d = zero \<and> minted d = zero \<and> mintingPower d = zero"
proof -
  obtain t where t: "deposits None None None = Inr t"
    using no_data_shows_zero [where bm = None and mp = None and bd = None] by blast
  then obtain ds where ds: "t 56 = Some ds" and "ds \<noteq> []" and sy: "dep_symbol (hd ds) = ''WETH''"
    by (auto simp: deposits_def Let_def formattedBalances_def formattedMints_def
        format_batch_def mk_deposit_def)
  then have d: "hd ds \<in> set ds"
    by simp
  show ?thesis
    using t ds d sy
      no_data_shows_zero [where bm = None and mp = None and bd = None and tbl = t and c = 56
        and ds = ds and d = "hd ds"]
    by blast
qed

lemma deposits_defined:
  assumes "bd = None \<or> (\<exists>bs. bd = Some bs \<and> length bs = 5)"
    and "bm = None \<or> (\<exists>ms. bm = Some ms \<and> length ms = 5)"
  shows "\<exists>tbl. deposits bd bm mp = Inr tbl"
  using format_batch_length [OF assms(1)] format_batch_length [OF assms(2)]
  by (simp add: deposits_def Let_def formattedBalances_def formattedMints_def)

lemma one_unit: "num_div (of_bigint 1000000000000000000) (pow10 18) = Finite False 4503599627370496 (- 52)"
  by (simp add: round_eval)

lemma no_unit: "num_div (of_bigint 0) (pow10 18) = zero"
  by (simp add: round_eval zero_def)

lemma fifth_slot_balances:
  "formattedBalances (Some [0, 0, 0, 0, 1000000000000000000]) =
     [zero, zero, zero, zero, Finite False 4503599627370496 (- 52)]"
  using one_unit no_unit by (simp add: formattedBalances_def format_batch_def)

text \<open>
  C8. When each of the two batches has no data or five values, \<^verbatim>\<open>YourDeposits\<close> renders,
  and it renders the placeholder exactly when the deposit list of the chain is empty or
  all five formatted balances are zero; otherwise it renders the table of the chain. The
  test looks at all five balances on every chain: on chain 56, which has two deposits, a
  balance in the fifth slot alone makes the table appear, with the amount zero in both of
  its rows.
\<close>

theorem placeholder_iff_empty_or_all_zero:
  assumes "bd = None \<or> (\<exists>bs. bd = Some bs \<and> length bs = 5)"
    and "bm = None \<or> (\<exists>ms. bm = Some ms \<and> length ms = 5)"
  shows "length (formattedBalances bd) = 5
    \<and> (\<exists>tbl. deposits bd bm mp = Inr tbl
         \<and> (YourDeposits c bd bm mp = Inr NothingDeposited \<longleftrightarrow>
              chainDeposits tbl c = []
              \<or> list_all (\<lambda>b. strict_eq b zero) (formattedBalances bd))
         \<and> (YourDeposits c bd bm mp = Inr NothingDeposited
              \<or> YourDeposits c bd bm mp = Inr (DepositsTable (chainDeposits tbl c))))
    \<and> (\<exists>rows. YourDeposits 56 (Some [0, 0, 0, 0, 1000000000000000000]) None None = Inr (DepositsTable rows)
         \<and> map dep_symbol rows = [''WETH'', ''WBNB'']
         \<and> map dep_amount rows = [zero, zero])"
proof -
  have a: "length (formattedBalances bd) = 5"
    using format_batch_length [OF assms(1)] by (simp add: formattedBalances_def)
  obtain tbl where t: "deposits bd bm mp = Inr tbl"
    using deposits_defined [OF assms] by blast
  have b: "(YourDeposits c bd bm mp = Inr NothingDeposited \<longleftrightarrow>
              chainDeposits tbl c = []
              \<or> list_all (\<lambda>b. strict_eq b zero) (formattedBalances bd))
         \<and> (YourDeposits c bd bm mp = Inr NothingDeposited
              \<or> YourDeposits c bd bm mp = Inr (DepositsTable (chainDeposits tbl c)))"
    by (simp add: YourDeposits_def t allDepositsZero_def)
  have nz: "\<not> allDepositsZero (Some [0, 0, 0, 0, 1000000000000000000])"
    by (simp add: allDepositsZero_def fifth_slot_balances zero_def signed_def)
  have z0: "shown6 [zero, zero, zero, zero, Finite False 4503599627370496 (- 52)] 0 = zero"
    by (simp add: shown6_def toFixed_zero_6 parseFloat_0_000000 del: toFixed.simps)
  have z1: "shown6 [zero, zero, zero, zero, Finite False 4503599627370496 (- 52)] 1 = zero"
    by (simp add: shown6_def toFixed_zero_6 parseFloat_0_000000 del: toFixed.simps)
  have c: "\<exists>rows. YourDeposits 56 (Some [0, 0, 0, 0, 1000000000000000000]) None None = Inr (DepositsTable rows)
         \<and> map dep_symbol rows = [''WETH'', ''WBNB'']
         \<and> map dep_amount rows = [zero, zero]"
    using nz z0 z1
    by (simp add: YourDeposits_def deposits_def Let_def fifth_slot_balances chainDeposits_def
        formattedMints_def format_batch_def mk_deposit_def)
  from a t b c show ?thesis by blast
qed

text \<open>
  The witness: with the balances \<open>1, 0, 0, 0, 0\<close> (in units of \<open>10\<^sup>1\<^sup>8\<close>) the table is shown
  on chain 137 and the placeholder on the unregistered chain 1; without data the
  placeholder is shown on chain 137.
\<close>

theorem placeholder_iff_empty_or_all_zero_witness:
  "YourDeposits 1 (Some [1000000000000000000, 0, 0, 0, 0]) None None = Inr NothingDeposited
   \<and> YourDeposits 137 None (Some [0, 0, 0, 0, 0]) None = Inr NothingDeposited
   \<and> YourDeposits 137 (Some [1000000000000000000, 0, 0, 0, 0]) None None \<noteq> Inr NothingDeposited"
proof -
  have p: "(Some [1000000000000000000, 0, 0, 0, 0] :: nat list option) = None
      \<or> (\<exists>bs. Some [1000000000000000000, 0, 0, 0, 0] = Some bs \<and> length (bs :: nat list) = 5)"
    by simp
  have q: "(Some [0, 0, 0, 0, 0] :: nat list option) = None
      \<or> (\<exists>bs. Some [0, 0, 0, 0, 0] = Some bs \<and> length (bs :: nat list) = 5)"
    by simp
  have n: "(None :: nat list option) = None \<or> (\<exists>bs. None = Some bs \<and> length (bs :: nat list) = 5)"
    by simp
  have nz: "\<not> list_all (\<lambda>b. strict_eq b zero) (formattedBalances (Some [1000000000000000000, 0, 0, 0, 0]))"
    using one_unit no_unit
    by (simp add: formattedBalances_def format_batch_def zero_def signed_def)
  have e1: "chainDeposits t 1 = []" if "deposits (Some [1000000000000000000, 0, 0, 0, 0]) None None = Inr t" for t
    using that by (auto simp: deposits_def Let_def chainDeposits_def split: if_splits)
  have e137: "chainDeposits t 137 \<noteq> []"
    if "deposits (Some [1000000000000000000, 0, 0, 0, 0]) None None = Inr t" for t
    using that by (auto simp: deposits_def Let_def chainDeposits_def split: if_splits)
  show ?thesis
    using placeholder_iff_empty_or_all_zero [OF p n, of None 1]
      placeholder_iff_empty_or_all_zero [OF n q, of None 137]
      placeholder_iff_empty_or_all_zero [OF p n, of None 137]
      nz e1 e137 all_zero_no_data
    by (auto simp: allDepositsZero_def)
qed

end
